theory Spec2Isabelle
  imports Complex_Main "HOL-Library.AList"
begin

section \<open>Python values used by the scripts\<close>

text \<open>
  The scripts under \<^verbatim>\<open>src/data_prep\<close> are glue around a desktop GIS
  toolkit. Field names, ISO codes and paths are Python strings; they are modelled as
  \<^typ>\<open>string\<close>, and the case mappings \<^verbatim>\<open>str.lower\<close> and
  \<^verbatim>\<open>str.upper\<close> act on the ASCII letters (every other character is
  left as it is).
\<close>

definition lower_char :: "char \<Rightarrow> char" where
  "lower_char c =
     (let n = (of_char c :: nat) in if 65 \<le> n \<and> n \<le> 90 then char_of (n + 32) else c)"

definition upper_char :: "char \<Rightarrow> char" where
  "upper_char c =
     (let n = (of_char c :: nat) in if 97 \<le> n \<and> n \<le> 122 then char_of (n - 32) else c)"

definition lower :: "string \<Rightarrow> string" where
  "lower s = map lower_char s"

definition upper :: "string \<Rightarrow> string" where
  "upper s = map upper_char s"

definition isdigit_char :: "char \<Rightarrow> bool" where
  "isdigit_char c = (let n = (of_char c :: nat) in 48 \<le> n \<and> n \<le> 57)"

text \<open>\<^verbatim>\<open>s[:1].isdigit()\<close>: false on the empty string.\<close>

definition starts_with_digit :: "string \<Rightarrow> bool" where
  "starts_with_digit s = (case s of [] \<Rightarrow> False | c # _ \<Rightarrow> isdigit_char c)"

text \<open>\<^verbatim>\<open>s[:1] == '_'\<close>.\<close>

definition starts_with_underscore :: "string \<Rightarrow> bool" where
  "starts_with_underscore s = (take 1 s = ''_'')"

text \<open>
  The characters \<^verbatim>\<open>str.strip()\<close> removes from both ends: tab, line feed,
  vertical tab, form feed, carriage return, the four separators 28 to 31 and the space.
\<close>

definition isspace_char :: "char \<Rightarrow> bool" where
  "isspace_char c =
     (let n = (of_char c :: nat) in (9 \<le> n \<and> n \<le> 13) \<or> (28 \<le> n \<and> n \<le> 32))"

definition strip :: "string \<Rightarrow> string" where
  "strip s = rev (dropWhile isspace_char (rev (dropWhile isspace_char s)))"

text \<open>Truth value of a nullable integer cell: \<^verbatim>\<open>None\<close> and 0 are false.\<close>

definition truthy :: "int option \<Rightarrow> bool" where
  "truthy v = (case v of None \<Rightarrow> False | Some n \<Rightarrow> n \<noteq> 0)"

section \<open>What a run leaves behind\<close>

text \<open>
  A message is the text of an f-string; an interpolated value that is not a string is kept
  as a value, its rendering being Python's.
\<close>

datatype piece =
    Txt string
  | IntVal int
  | RealVal real
  | StrList "string list"
  | StrDict "(string \<times> string) list"
  | StrSet "string set"

type_synonym msg = "piece list"

text \<open>
  The toolkit operations the scripts invoke, with the arguments that matter. Every run is
  observed through its trace: the logging calls and the toolkit operations, in order.
\<close>

datatype toolkit_call =
    MkDir string
  | CreateFileGDB string string
  | CheckGeometry string string
  | Delete string
  | EnvOverwriteOutput
  | EnvOutputCoordinateSystem int
  | CopyFeatures string string
  | EnvWorkspace string
  | AlterField string string string
  | RepairGeometry string
  | AddField string string string
  | UnionAnalysis string string string
  | CalculateGeometryAttributes string
  | MakeFeatureLayer string string
  | SelectLayerByAttribute string string string
  | Eliminate string string
  | ImportDocument string
  | RenameMap string
  | UpdateConnectionProperties string string string
  | RemoveLayer string
  | Save

datatype entry =
    AddMessage msg
  | AddWarning msg
  | AddError msg
  | Call toolkit_call

type_synonym trace = "entry list"

text \<open>
  How a piece of script ends: it returns a value, it calls \<^verbatim>\<open>sys.exit(n)\<close>,
  or an exception is raised and nothing catches it.
\<close>

datatype exn = TypeError | KeyError | AttributeError | NameError | IndexError | RuntimeError

datatype 'a outcome = Returns 'a | SysExit int | Raises exn

section \<open>The toolkit as the scripts see it\<close>

text \<open>
  What \<^verbatim>\<open>arcpy.da.Describe\<close> tells about a feature class, as far as the
  scripts read it.
\<close>

record description =
  spatialReference_name :: string
  spatialReference_type :: string
  datumCode :: int
  spheroidCode :: int
  extent :: string
  shapeType :: string

text \<open>
  A record of the unioned feature class, with the columns the scripts read and write.
  \<open>geodesic_area\<close> is the area of the record's geometry in square kilometres, which
  \<^verbatim>\<open>CalculateGeometryAttributes\<close> stores in \<open>AREA_SQKM\<close>. A cell that
  holds no value is \<open>None\<close>.
\<close>

record urow =
  OBJECTID :: int
  union_uid :: "int option"
  geodesic_area :: real
  AREA_SQKM :: "real option"
  overlaps :: "int option"
  gaps :: "int option"

text \<open>
  A layer of a map of the review project: its name and its connection properties.
\<close>

record connection =
  database :: string
  dataset :: string
  workspace_factory :: string

record layer =
  layer_name :: string
  connectionProperties :: connection

text \<open>
  Reading a text file line by line either delivers all its lines, or raises
  \<^verbatim>\<open>IOError\<close> after the lines read so far (none when the file cannot be
  opened).
\<close>

datatype file_read = Lines "string list" | IOErrorAfter "string list"

text \<open>
  The answers of the toolkit and of the file system to the queries of a script: whether a
  path exists, the field names and the feature count of a feature class, its description,
  the lines of a file, the absolute form of a folder path, the records that the Union
  of a feature class with itself produces, given the \<open>union_uid\<close> column of its input,
  and the maps (each one the list of its layers) that the project holds under a name
  pattern once a template document has been imported.
\<close>

record world =
  Exists :: "string \<Rightarrow> bool"
  ListFields :: "string \<Rightarrow> string list"
  GetCount :: "string \<Rightarrow> nat"
  Describe :: "string \<Rightarrow> description"
  read_file :: "string \<Rightarrow> file_read"
  absolute_posix :: "string \<Rightarrow> string"
  UnionRows :: "string \<Rightarrow> int list \<Rightarrow> urow list"
  listMaps :: "string \<Rightarrow> string \<Rightarrow> layer list list"

definition backslash :: string where
  "backslash = [CHR 0x5C]"

definition newline :: string where
  "newline = [CHR 0x0A]"

text \<open>Sequencing: the second part runs when the first one returns.\<close>

definition and_then :: "trace \<times> 'a outcome \<Rightarrow> ('a \<Rightarrow> trace \<times> 'b outcome) \<Rightarrow> trace \<times> 'b outcome" where
  "and_then m f =
     (case m of
        (t, Returns x) \<Rightarrow> (case f x of (t', r) \<Rightarrow> (t @ t', r))
      | (t, SysExit n) \<Rightarrow> (t, SysExit n)
      | (t, Raises e) \<Rightarrow> (t, Raises e))"

definition say :: "trace \<Rightarrow> trace \<times> unit outcome" where
  "say t = (t, Returns ())"

definition returning :: "trace \<times> 'a \<Rightarrow> trace \<times> 'a outcome" where
  "returning m = (case m of (t, x) \<Rightarrow> (t, Returns x))"

section \<open>check_input_boundaries\<close>

subsection \<open>The ISO code\<close>

text \<open>
  \<^verbatim>\<open>ISOS_TO_CHANGE = {'and': 'adr', 'vat': 'vcs'}\<close> and
  \<^verbatim>\<open>BAD_ISOS = set(ISOS_TO_CHANGE.keys())\<close>.
\<close>

definition ISOS_TO_CHANGE :: "(string \<times> string) list" where
  "ISOS_TO_CHANGE = [(''and'', ''adr''), (''vat'', ''vcs'')]"

definition BAD_ISOS :: "string set" where
  "BAD_ISOS = set (map fst ISOS_TO_CHANGE)"

text \<open>
  \<^verbatim>\<open>dict.get\<close> answers \<^verbatim>\<open>None\<close> for a missing key; the lookup
  below is made only for keys of the dictionary, where it is defined
  (lemma \<open>ISOS_TO_CHANGE_defined\<close>).
\<close>

definition check_iso_code :: "string \<Rightarrow> string" where
  "check_iso_code code =
     (let iso1 = lower code
      in if iso1 \<in> BAD_ISOS then the (map_of ISOS_TO_CHANGE iso1) else iso1)"

subsection \<open>Reserved words and field names\<close>

definition RESERVED_WORDS_FILE :: string where
  "RESERVED_WORDS_FILE =
     backslash @ backslash @ ''dataserver1'' @ backslash @ ''GPW'' @ backslash @ ''GPW5''
     @ backslash @ ''Scripts'' @ backslash @ ''Ingest'' @ backslash @ ''reference_data''
     @ backslash @ ''reserved_words.txt''"

text \<open>
  \<^verbatim>\<open>_read_reserved_words\<close>: the set of the stripped lines of the file; an
  \<^verbatim>\<open>IOError\<close> is caught, reported as a warning, and the words read so far
  are returned.
\<close>

definition read_reserved_words :: "'a world_scheme \<Rightarrow> trace \<times> string set" where
  "read_reserved_words w =
     (let t0 = [AddMessage [Txt ''Reading in reserved keywords.'']]
      in case read_file w RESERVED_WORDS_FILE of
           Lines ls \<Rightarrow> (t0, fold (\<lambda>line reserved_words. insert (strip line) reserved_words) ls {})
         | IOErrorAfter ls \<Rightarrow>
             (t0 @ [AddWarning [Txt ''Unable to read list of reserved keywords, field names cannot be checked!''],
                    AddMessage [Txt ''Tried to read words from file: ''],
                    AddMessage [Txt RESERVED_WORDS_FILE]],
              fold (\<lambda>line reserved_words. insert (strip line) reserved_words) ls {}))"

text \<open>
  \<^verbatim>\<open>check_fields\<close>. The dictionary \<open>changed_names\<close> is an association list
  in insertion order; assigning to a key that is present replaces its value in place.
\<close>

definition check_fields :: "'a world_scheme \<Rightarrow> string \<Rightarrow> trace \<times> (string \<times> string) list" where
  "check_fields w fc =
     (case read_reserved_words w of (t0, reserved_words) \<Rightarrow>
      let flds = map upper (ListFields w fc);
          t1 = [AddMessage [Txt (''Checking feature class field names: '' @ newline), StrList flds]];
          (t2, changed_names) =
             fold (\<lambda>fld (t, d).
                     if fld \<in> reserved_words
                     then (t @ [AddMessage [Txt (''Field '' @ fld @ '' is a reserved name, adding an underscore.'')]],
                           AList.update fld (fld @ ''_'') d)
                     else (t, d))
                  flds ([], []);
          t3 = [AddMessage [Txt ''Checking for edge cases: digit or underscore starting a field.'']];
          changed_names =
             fold (\<lambda>fld d.
                     if starts_with_digit fld then AList.update fld (''t_'' @ fld) d
                     else if starts_with_underscore fld then AList.update fld (''t'' @ fld) d
                     else d)
                  flds changed_names
      in (t0 @ t1 @ t2 @ t3, changed_names))"

subsection \<open>Input parameters, geometry, spatial reference, working copy\<close>

text \<open>
  \<^verbatim>\<open>_check_input_params\<close>: exits with code 1 when the input feature class
  does not exist; otherwise creates the output folder and, unless it exists, the output
  geodatabase, and returns its path.
\<close>

definition check_input_params :: "'a world_scheme \<Rightarrow> string \<Rightarrow> string \<Rightarrow> string \<Rightarrow> trace \<times> string outcome" where
  "check_input_params w fc ows iso1 =
     (if \<not> Exists w fc
      then ([AddError [Txt (''Input feature class '' @ fc @ '' not found!'')],
             AddError [Txt ''Please check your inputs and try again.'']], SysExit 1)
      else
        (let t1 = [AddMessage [Txt ''Creating output path.''], Call (MkDir ows),
                   AddMessage [Txt ''Creating output Geodatabase (if it doesn't exist).'']];
             out_gdb = iso1 @ ''_ingest.gdb'';
             ows1 = absolute_posix w ows;
             t2 = (if \<not> Exists w (ows1 @ backslash @ out_gdb)
                   then [Call (CreateFileGDB ows1 out_gdb)] else [])
         in (t1 @ t2, Returns (ows1 @ backslash @ out_gdb))))"

text \<open>
  \<^verbatim>\<open>check_geometry\<close> returns the triple \<open>repair_geometry\<close>,
  \<open>topology_tests\<close>, \<open>projection_defined\<close>, each \<^verbatim>\<open>None\<close>,
  \<^verbatim>\<open>True\<close> or \<^verbatim>\<open>False\<close>.
\<close>

definition check_geom_table :: string where
  "check_geom_table = ''memory'' @ backslash @ ''check_geom''"

definition check_geometry :: "'a world_scheme \<Rightarrow> string \<Rightarrow> trace \<times> (bool option \<times> bool option \<times> bool option)" where
  "check_geometry w fc =
     (let desc = Describe w fc;
          t0 = [AddMessage [Txt ''Checking spatial reference...'']]
      in if spatialReference_name desc = ''Unknown''
         then (t0 @ [AddWarning [Txt ''Spatial reference is NOT defined!''],
                     AddMessage [Txt (''Spatial extent is: '' @ extent desc)]],
               (None, None, Some False))
         else
           (let t1 = [AddMessage [Txt (spatialReference_name desc)],
                      AddMessage [Txt ''Checking geometry...''],
                      Call (CheckGeometry fc check_geom_table)];
                cnt = int (GetCount w check_geom_table);
                t2 = [AddMessage [IntVal cnt, Txt '' geometry errors identified.'']];
                repair_geometry = (if cnt > 0 then Some True else None);
                t3 = [Call (Delete check_geom_table), AddMessage [Txt ''Checking geometry type...'']];
                shape_type = shapeType desc
            in if shape_type \<notin> set [''Polygon'', ''MultiPatch'']
               then (t0 @ t1 @ t2 @ t3
                       @ [AddWarning [Txt (''Input feature class has '' @ shape_type @ '' geometry, not Polygon!'')]],
                     (repair_geometry,
                      (if shape_type = ''MultiPatch'' then Some True else Some False),
                      Some True))
               else (t0 @ t1 @ t2 @ t3, (repair_geometry, Some True, Some True))))"

definition check_srs :: "'a world_scheme \<Rightarrow> string \<Rightarrow> trace \<times> (bool \<times> bool)" where
  "check_srs w feat =
     (let desc = Describe w feat;
          isGeo = (spatialReference_type desc = ''Geographic'');
          wgs84 = (if datumCode desc = 6326 then True
                   else if spheroidCode desc = 7030 then True else False)
      in ((if \<not> (isGeo \<and> wgs84)
           then [AddWarning [Txt ''Coordinate system is not Geographic (WGS84), copied feature class will be projected to match'']]
           else []),
          (isGeo, wgs84)))"

text \<open>
  \<^verbatim>\<open>make_copy\<close>. \<open>out_sr\<close> is the code of the target spatial reference, if
  any; \<open>field_mapping\<close> is the dictionary of renamings, if any, and an empty one counts
  as none.
\<close>

definition make_copy :: "string \<Rightarrow> string \<Rightarrow> string \<Rightarrow> int option \<Rightarrow> (string \<times> string) list option \<Rightarrow> trace \<times> string" where
  "make_copy fc out_ws iso1 out_sr field_mapping =
     (let t0 = [Call EnvOverwriteOutput];
          t1 = (case out_sr of
                  Some sr \<Rightarrow> [AddWarning [Txt ''Output coordinate system is different than input''],
                              AddWarning [Txt ''Check alignment of output features against known reference source.''],
                              Call (EnvOutputCoordinateSystem sr)]
                | None \<Rightarrow> []);
          out_fc = iso1 @ ''_ingest'';
          t2 = [AddMessage [Txt ''Creating working copy of feature class.''],
                Call (CopyFeatures fc (out_ws @ backslash @ out_fc))];
          t3 = (case field_mapping of
                  None \<Rightarrow> []
                | Some m \<Rightarrow>
                    if m = [] then []
                    else [AddMessage [Txt ''Renaming fields.''], Call (EnvWorkspace out_ws)]
                         @ map (\<lambda>(key, val). Call (AlterField out_fc key val)) m)
      in (t0 @ t1 @ t2 @ t3, out_ws @ backslash @ out_fc))"

subsection \<open>Gaps and overlaps in the union\<close>

text \<open>
  The first scan of the union (source lines 203 to 209): a record whose \<open>union_uid\<close> is
  false (null or 0) counts as a gap, the \<open>union_uid\<close> of every other record is collected.
\<close>

definition count_gaps_uids :: "urow list \<Rightarrow> int \<times> int list" where
  "count_gaps_uids rs =
     fold (\<lambda>row (gap_count, uids).
             if \<not> truthy (union_uid row) then (gap_count + 1, uids)
             else (gap_count, uids @ [the (union_uid row)]))
          rs (0, [])"

text \<open>
  \<^verbatim>\<open>dupes = {x for x in uids if x in visited or visited.add(x)}\<close>: an
  element is collected each time it is met after its first occurrence.
\<close>

fun find_dupes :: "int list \<Rightarrow> int set \<Rightarrow> int set" where
  "find_dupes [] visited = {}"
| "find_dupes (x # xs) visited =
     (if x \<in> visited then insert x (find_dupes xs visited)
      else find_dupes xs (insert x visited))"

text \<open>
  The scan for the overlap sizes (source lines 237 to 246). \<open>overlap_sizes\<close> maps each
  duplicated id to the pair of the largest area met so far and the \<open>OBJECTID\<close> of its
  record, starting from \<open>[0, 0]\<close>. \<^verbatim>\<open>int(None)\<close> and
  \<^verbatim>\<open>float(None)\<close> raise \<^verbatim>\<open>TypeError\<close>.
\<close>

definition initial_overlap_sizes :: "int set \<Rightarrow> (int \<rightharpoonup> real \<times> int)" where
  "initial_overlap_sizes dupes = (\<lambda>x. if x \<in> dupes then Some (0, 0) else None)"

fun overlap_size_scan :: "int set \<Rightarrow> urow list \<Rightarrow> (int \<rightharpoonup> real \<times> int) \<Rightarrow> (int \<rightharpoonup> real \<times> int) outcome" where
  "overlap_size_scan dupes [] overlap_sizes = Returns overlap_sizes"
| "overlap_size_scan dupes (row # rs) overlap_sizes =
     (if OBJECTID row \<noteq> 0
      then (case union_uid row of
              None \<Rightarrow> Raises TypeError
            | Some uid \<Rightarrow>
                (case AREA_SQKM row of
                   None \<Rightarrow> Raises TypeError
                 | Some area \<Rightarrow>
                     if uid \<in> dupes
                     then (case overlap_sizes uid of
                             None \<Rightarrow> Raises KeyError
                           | Some (largest, _) \<Rightarrow>
                               if area > largest
                               then overlap_size_scan dupes rs (overlap_sizes(uid \<mapsto> (area, OBJECTID row)))
                               else overlap_size_scan dupes rs overlap_sizes)
                     else overlap_size_scan dupes rs overlap_sizes))
      else overlap_size_scan dupes rs overlap_sizes)"

text \<open>
  \<^verbatim>\<open>set([x[1] for x in overlap_sizes.values()])\<close>; the keys of
  \<open>overlap_sizes\<close> are the elements of \<open>dupes\<close>.
\<close>

definition main_overlap_polys :: "int set \<Rightarrow> (int \<rightharpoonup> real \<times> int) \<Rightarrow> int set" where
  "main_overlap_polys dupes overlap_sizes =
     (\<Union>x\<in>dupes. case overlap_sizes x of None \<Rightarrow> {} | Some (largest, oid) \<Rightarrow> {oid})"

text \<open>The update of the \<open>overlaps\<close> column (source lines 256 to 268).\<close>

fun flag_overlaps :: "int set \<Rightarrow> int set \<Rightarrow> urow list \<Rightarrow> urow list outcome" where
  "flag_overlaps dupes mains [] = Returns []"
| "flag_overlaps dupes mains (row # rs) =
     (case union_uid row of
        None \<Rightarrow> Raises TypeError
      | Some uid \<Rightarrow>
          (case flag_overlaps dupes mains rs of
             Returns rs' \<Rightarrow>
               Returns (row\<lparr>overlaps := Some (if uid \<in> dupes
                                               then (if OBJECTID row \<in> mains then 2 else 1)
                                               else 0)\<rparr> # rs')
           | SysExit n \<Rightarrow> SysExit n
           | Raises e \<Rightarrow> Raises e))"

text \<open>The update of the \<open>gaps\<close> column (source lines 274 to 280).\<close>

definition flag_gaps :: "urow list \<Rightarrow> urow list" where
  "flag_gaps rs = map (\<lambda>row. row\<lparr>gaps := Some (if \<not> truthy (union_uid row) then 1 else 0)\<rparr>) rs"

text \<open>The overlap pass (source lines 223 to 268), on the records and the field names of the union.\<close>

definition overlap_pass :: "string \<Rightarrow> string list \<Rightarrow> int list \<Rightarrow> urow list \<Rightarrow> trace \<times> urow list outcome" where
  "overlap_pass fc_union flds uids rs =
     (let t0 = [AddMessage [Txt ''Flagging overlaps in union of the boundaries.'']];
          dupes = find_dupes uids {};
          t1 = (if ''overlaps'' \<notin> set flds then [Call (AddField fc_union ''overlaps'' ''SHORT'')] else []);
          t2 = [AddMessage [Txt ''Checking overlap sizes...'']]
      in case overlap_size_scan dupes rs (initial_overlap_sizes dupes) of
           Raises e \<Rightarrow> (t0 @ t1 @ t2, Raises e)
         | SysExit n \<Rightarrow> (t0 @ t1 @ t2, SysExit n)
         | Returns overlap_sizes \<Rightarrow>
             (let mains = main_overlap_polys dupes overlap_sizes;
                  t3 = (if card mains \<noteq> card dupes
                        then [AddWarning [Txt ''Not all overlap polygons were matched with a central (main) polygon.''],
                              AddWarning [Txt ''Overlaps should be manually reviewed.'']]
                        else [AddMessage [Txt ''Main (central) overlap polygons identified'']]);
                  t4 = [AddMessage [Txt ''Updating union feature class to flag overlaps (1) and central polys (2).'']]
              in (t0 @ t1 @ t2 @ t3 @ t4, flag_overlaps dupes mains rs)))"

text \<open>The gap pass (source lines 270 to 280).\<close>

definition gap_pass :: "string \<Rightarrow> string list \<Rightarrow> urow list \<Rightarrow> trace \<times> urow list outcome" where
  "gap_pass fc_union flds rs =
     ([AddMessage [Txt ''Flagging gaps in union of the boundaries.'']]
        @ (if ''gaps'' \<notin> set flds then [Call (AddField fc_union ''gaps'' ''SHORT'')] else []),
      Returns (flag_gaps rs))"

text \<open>
  \<^verbatim>\<open>overlap_gap_analysis\<close> returns the unioned feature class, here its
  records as the passes left them, the number of gaps and the number of overlaps. The
  \<open>union_uid\<close> of the input's records is their position in the cursor, from 1. The
  source binds \<open>flds\<close> only when a gap or an overlap was counted, and reads it only
  then; listing the fields has no effect, so it is bound here in either case.
\<close>

definition overlap_gap_analysis :: "'a world_scheme \<Rightarrow> string \<Rightarrow> trace \<times> (urow list \<times> int \<times> int) outcome" where
  "overlap_gap_analysis w fc =
     (let t0 = [AddMessage [Txt ''Creating and populating unique ID field''],
                Call (AddField fc ''union_uid'' ''LONG'')];
          uid_column = map (\<lambda>i. int i + 1) [0 ..< GetCount w fc];
          original_count = int (GetCount w fc);
          fc_union = fc @ ''_union'';
          t1 = [AddMessage [Txt ''Running Union operation.''],
                Call (UnionAnalysis fc fc_union ''NO_GAPS''),
                AddMessage [Txt (''created '' @ fc_union)]];
          rs = UnionRows w fc uid_column;
          post_union_count = int (length rs)
      in if \<not> post_union_count > original_count
         then (t0 @ t1 @ [AddMessage [Txt ''No overlaps or gaps found!'']], Returns (rs, 0, 0))
         else
           (let t2 = [AddMessage [IntVal (post_union_count - original_count),
                                  Txt '' overlaps and/or gaps in input feature class''],
                      AddMessage [Txt ''Counting overlaps and gaps.'']];
                (gap_count, uids) = count_gaps_uids rs;
                overlap_count = int (length uids) - original_count;
                t3 = [AddMessage [Txt ''Found '', IntVal gap_count, Txt '' gaps and '',
                                  IntVal overlap_count, Txt '' overlaps.'']];
                flds = map lower (ListFields w fc_union);
                (t4, rs1) = (if overlap_count \<noteq> 0 \<or> gap_count \<noteq> 0
                             then ([Call (CalculateGeometryAttributes fc_union)],
                                   map (\<lambda>row. row\<lparr>AREA_SQKM := Some (geodesic_area row)\<rparr>) rs)
                             else ([], rs))
            in and_then (t0 @ t1 @ t2 @ t3 @ t4, Returns ()) (\<lambda>_.
               and_then (if overlap_count > 0 then overlap_pass fc_union flds uids rs1
                         else ([], Returns rs1)) (\<lambda>rs2.
               and_then (if gap_count > 0 then gap_pass fc_union flds rs2
                         else ([], Returns rs2)) (\<lambda>rs3.
               ([], Returns (rs3, gap_count, overlap_count)))))))"

subsection \<open>Statistics\<close>

text \<open>
  \<^verbatim>\<open>calculate_gap_overlap_stats\<close> is called with a list of field names or,
  in two branches of the script, with a single string, on which
  \<^verbatim>\<open>check_fields.append\<close> raises \<^verbatim>\<open>AttributeError\<close>. The
  cursor reads the flag columns named in the list and \<open>AREA_SQKM\<close>. Areas are summed and
  averaged as real numbers.
\<close>

datatype fields_arg = FieldList "string list" | FieldName string

definition cell :: "urow \<Rightarrow> string \<Rightarrow> int option outcome" where
  "cell row fld =
     (if fld = ''gaps'' then Returns (gaps row)
      else if fld = ''overlaps'' then Returns (overlaps row)
      else Raises RuntimeError)"

definition append_area :: "string \<Rightarrow> real \<Rightarrow> (string \<times> real list) list \<Rightarrow> (string \<times> real list) list" where
  "append_area fld a areas =
     (case map_of areas fld of
        None \<Rightarrow> areas @ [(fld, [a])]
      | Some l \<Rightarrow> AList.update fld (l @ [a]) areas)"

fun tally_fields :: "urow \<Rightarrow> string list \<Rightarrow> (string \<times> real list) list \<times> real \<Rightarrow> ((string \<times> real list) list \<times> real) outcome" where
  "tally_fields row [] acc = Returns acc"
| "tally_fields row (fld # flds) (areas, poly_area) =
     (case cell row fld of
        Raises e \<Rightarrow> Raises e
      | SysExit n \<Rightarrow> SysExit n
      | Returns None \<Rightarrow> Raises TypeError
      | Returns (Some v) \<Rightarrow>
          (case AREA_SQKM row of
             None \<Rightarrow> Raises TypeError
           | Some a \<Rightarrow>
               if v = 1 then tally_fields row flds (append_area fld a areas, poly_area)
               else tally_fields row flds (areas, poly_area + a)))"

fun tally_rows :: "urow list \<Rightarrow> string list \<Rightarrow> (string \<times> real list) list \<times> real \<Rightarrow> ((string \<times> real list) list \<times> real) outcome" where
  "tally_rows [] flds acc = Returns acc"
| "tally_rows (row # rs) flds acc =
     (case tally_fields row flds acc of
        Returns acc' \<Rightarrow> tally_rows rs flds acc'
      | SysExit n \<Rightarrow> SysExit n
      | Raises e \<Rightarrow> Raises e)"

definition calculate_gap_overlap_stats :: "urow list \<Rightarrow> fields_arg \<Rightarrow> (string \<times> real) list outcome" where
  "calculate_gap_overlap_stats polys arg =
     (case arg of
        FieldName s \<Rightarrow> Raises AttributeError
      | FieldList fs \<Rightarrow>
          (let check_fields = fs @ [''AREA_SQKM'']
           in case tally_rows polys (butlast check_fields) ([], 0) of
                Raises e \<Rightarrow> Raises e
              | SysExit n \<Rightarrow> SysExit n
              | Returns (areas, poly_area) \<Rightarrow>
                  Returns (fold (\<lambda>(key, val) stats.
                                   AList.update (key @ '' mean area'') (sum_list val / real (length val))
                                     (AList.update (key @ '' max area'') (Max (set val)) stats))
                                areas
                                [(''average unit area excluding gaps and overlaps'', poly_area)])))"

subsection \<open>The script\<close>

record boundary_args =
  input_features :: string
  iso_code :: string
  out_folder :: string
  check_iso :: bool

text \<open>
  The body of the script (source lines 337 to 407). A run that returns ends with exit
  code 0; \<open>topo_stats\<close> is bound only in the branches that assign it.
\<close>

definition check_input_boundaries :: "'a world_scheme \<Rightarrow> boundary_args \<Rightarrow> trace \<times> unit outcome" where
  "check_input_boundaries w a =
     (let t_iso = (if check_iso a then [AddMessage [Txt ''Checking ISO code...'']] else []);
          iso1 = (if check_iso a then check_iso_code (iso_code a) else lower (iso_code a))
      in
      and_then (say (t_iso @ [AddMessage [Txt ''Checking input params...'']])) (\<lambda>_.
      and_then (check_input_params w (input_features a) (out_folder a) iso1) (\<lambda>ws.
      and_then (say [AddMessage [Txt ''Checking field names...'']]) (\<lambda>_.
      and_then (returning (check_fields w (input_features a))) (\<lambda>updated_names.
      and_then (say (if updated_names \<noteq> []
                     then [AddMessage [Txt ''Found fields with reserved words in their names,''],
                           AddMessage [Txt ''output feature class will have updated names.''],
                           AddMessage [Txt ''Fields to be changed and the new names are:''],
                           AddMessage [StrDict updated_names],
                           AddMessage [Txt ''Field names will be renamed in a copy of the feature class.'']]
                     else [])) (\<lambda>_.
      and_then (say [AddMessage [Txt ''Checking geometry...'']]) (\<lambda>_.
      and_then (returning (check_geometry w (input_features a))) (\<lambda>(repair, topo, has_proj).
      and_then (if has_proj \<noteq> Some True
                then ([AddError [Txt ''Projection information is missing.''],
                       AddError [Txt ''Please investigate and define a projection for the feature class!''],
                       AddError [Txt ''Exiting without completing script.'']], SysExit 1)
                else say []) (\<lambda>_.
      and_then (returning (check_srs w (input_features a))) (\<lambda>(isGeo, wgs84).
      let sr = (if \<not> (isGeo \<and> wgs84) then Some 4326 else None) in
      and_then (if topo \<noteq> Some True
                then ([AddError [Txt ''Input feature class does not contain polygons, please check input!'']],
                      SysExit 1)
                else say []) (\<lambda>_.
      and_then (say [AddMessage [Txt ''Making a copy of the feature class to edit.'']]) (\<lambda>_.
      and_then (returning (if updated_names \<noteq> []
                           then make_copy (input_features a) ws iso1 sr (Some updated_names)
                           else make_copy (input_features a) ws iso1 sr None)) (\<lambda>fc_copy.
      and_then (say (if repair = Some True
                     then [AddWarning [Txt (''Repairing geometry for '' @ fc_copy @ ''.'')],
                           Call (RepairGeometry fc_copy)]
                     else [])) (\<lambda>_.
      if topo = Some True
      then
        and_then (overlap_gap_analysis w fc_copy) (\<lambda>(fc_unioned, gap_count, overlap_count).
        and_then ([], if gap_count > 0 \<and> overlap_count > 0
                      then (case calculate_gap_overlap_stats fc_unioned (FieldList [''gaps'', ''overlaps'']) of
                              Returns st \<Rightarrow> Returns (Some st) | SysExit n \<Rightarrow> SysExit n | Raises e \<Rightarrow> Raises e)
                      else if gap_count > 0
                      then (case calculate_gap_overlap_stats fc_unioned (FieldName ''gaps'') of
                              Returns st \<Rightarrow> Returns (Some st) | SysExit n \<Rightarrow> SysExit n | Raises e \<Rightarrow> Raises e)
                      else if overlap_count > 0
                      then (case calculate_gap_overlap_stats fc_unioned (FieldName ''overlaps'') of
                              Returns st \<Rightarrow> Returns (Some st) | SysExit n \<Rightarrow> SysExit n | Raises e \<Rightarrow> Raises e)
                      else Returns None) (\<lambda>topo_stats.
        and_then (say [AddMessage [Txt ''Overlap and Gap statistics:'']]) (\<lambda>_.
        case topo_stats of
          None \<Rightarrow> ([], Raises NameError)
        | Some st \<Rightarrow>
            say (map (\<lambda>(key, val). AddMessage [Txt (key @ '': ''), RealVal val, Txt '' square km'']) st))))
      else say [AddMessage [Txt ''No gaps or overlaps found in feature class. '']]))))))))))))))"

section \<open>eliminate_gaps_overlaps\<close>

text \<open>
  \<^verbatim>\<open>check_fc\<close>: a missing \<open>AREA_SQKM\<close> field is reported and the run goes
  on; the run exits with code 1 when neither flag field is present.
\<close>

definition check_fc :: "'a world_scheme \<Rightarrow> string \<Rightarrow> trace \<times> (bool \<times> bool) outcome" where
  "check_fc w in_fc =
     (let flds = ListFields w in_fc;
          t0 = (if ''AREA_SQKM'' \<notin> set flds
                then [AddError [Txt (''Field AREA_SQKM is required and cannot be found in '' @ in_fc)]]
                else []);
          has_gaps = (if ''gaps'' \<notin> set flds then False else True);
          has_overlaps = (if ''overlaps'' \<notin> set flds then False else True)
      in if \<not> (has_gaps \<or> has_overlaps)
         then (t0 @ [AddError [Txt (''No overlap or gap field found in '' @ in_fc)]], SysExit 1)
         else (t0, Returns (has_gaps, has_overlaps)))"

definition run_eliminate :: "string \<Rightarrow> string \<Rightarrow> trace" where
  "run_eliminate fc wh =
     [Call (MakeFeatureLayer fc ''lyr''),
      Call (SelectLayerByAttribute ''lyr'' ''NEW_SELECTION'' wh),
      Call (Eliminate ''lyr'' (fc @ ''_elim''))]"

record eliminate_args =
  elim_input_features :: string
  max_area :: string

text \<open>
  The where clause the script builds from the flag fields that exist; \<open>max_area\<close> is the
  text of the command-line argument. No clause is bound when neither field exists.
\<close>

definition where_query :: "bool \<Rightarrow> bool \<Rightarrow> string \<Rightarrow> string option" where
  "where_query g ov area =
     (if g \<and> ov then Some (''(gaps = 1 OR overlaps = 1) AND AREA_SQKM < '' @ area)
      else if g then Some (''gaps = 1 AND AREA_SQKM < '' @ area)
      else if ov then Some (''overlaps = 1 AND AREA_SQKM < '' @ area)
      else None)"

definition eliminate_gaps_overlaps :: "'a world_scheme \<Rightarrow> eliminate_args \<Rightarrow> trace \<times> unit outcome" where
  "eliminate_gaps_overlaps w a =
     and_then (say [AddMessage [Txt ''checking inputs...'']]) (\<lambda>_.
     and_then (check_fc w (elim_input_features a)) (\<lambda>(g, ov).
     case where_query g ov (max_area a) of
       None \<Rightarrow> ([], Raises NameError)
     | Some query \<Rightarrow>
         say ([AddMessage [Txt (''Where query: '' @ query)],
               AddMessage [Txt (''Eliminating polygons from '' @ elim_input_features a)]]
              @ run_eliminate (elim_input_features a) query)))"

text \<open>
  The reading of a where clause. The toolkit evaluates the text it is given; the clauses
  of this script are of the shape below, \<open>render\<close> gives their text, and
  \<open>selects\<close> their meaning on a record, a comparison with an empty cell being false.
  The numeric literal is kept as the text spliced in, and \<open>selects\<close> takes the number
  that text denotes.
\<close>

datatype clause =
    FlagIsOne string
  | AreaBelow string
  | Either clause clause
  | Both clause clause
  | Paren clause

fun render :: "clause \<Rightarrow> string" where
  "render (FlagIsOne f) = f @ '' = 1''"
| "render (AreaBelow lit) = ''AREA_SQKM < '' @ lit"
| "render (Either p q) = render p @ '' OR '' @ render q"
| "render (Both p q) = render p @ '' AND '' @ render q"
| "render (Paren p) = ''('' @ render p @ '')''"

fun selects :: "real \<Rightarrow> clause \<Rightarrow> urow \<Rightarrow> bool" where
  "selects v (FlagIsOne f) row =
     (if f = ''gaps'' then gaps row = Some 1
      else if f = ''overlaps'' then overlaps row = Some 1 else False)"
| "selects v (AreaBelow lit) row = (case AREA_SQKM row of None \<Rightarrow> False | Some a \<Rightarrow> a < v)"
| "selects v (Either p q) row = (selects v p row \<or> selects v q row)"
| "selects v (Both p q) row = (selects v p row \<and> selects v q row)"
| "selects v (Paren p) row = selects v p row"

text \<open>
  The selection the specification asks for: the records whose gap or overlap flag, among
  the flag fields that exist, equals 1, and whose \<open>AREA_SQKM\<close> is strictly below the
  threshold.
\<close>

definition flagged_below :: "bool \<Rightarrow> bool \<Rightarrow> real \<Rightarrow> urow \<Rightarrow> bool" where
  "flagged_below g ov v row =
     (((g \<and> gaps row = Some 1) \<or> (ov \<and> overlaps row = Some 1))
      \<and> (case AREA_SQKM row of None \<Rightarrow> False | Some a \<Rightarrow> a < v))"

definition where_clause :: "bool \<Rightarrow> bool \<Rightarrow> string \<Rightarrow> clause option" where
  "where_clause g ov area =
     (if g \<and> ov
      then Some (Both (Paren (Either (FlagIsOne ''gaps'') (FlagIsOne ''overlaps''))) (AreaBelow area))
      else if g then Some (Both (FlagIsOne ''gaps'') (AreaBelow area))
      else if ov then Some (Both (FlagIsOne ''overlaps'') (AreaBelow area))
      else None)"

section \<open>setup_gap_overlap_review\<close>

definition template :: string where
  "template = ''F:'' @ backslash @ ''GPWv5_prototyping'' @ backslash @ ''projects'' @ backslash
     @ ''gaps_overlapps_template'' @ backslash @ ''gaps_overlapps_template.aprx''"

definition layers_to_update :: "string set" where
  "layers_to_update = {''overlaps'', ''gaps'', ''admin_union''}"

definition original_layer :: string where
  "original_layer = ''original_loaded''"

text \<open>
  \<^verbatim>\<open>str.rfind\<close> of a character: the last index where it occurs, or -1. The
  two slices \<^verbatim>\<open>s[:k]\<close> and \<^verbatim>\<open>s[k:]\<close>, a negative \<open>k\<close> counting
  from the end. \<^verbatim>\<open>sub in s\<close> for strings.
\<close>

definition rfind :: "string \<Rightarrow> char \<Rightarrow> int" where
  "rfind s c = int (length (dropWhile (\<lambda>x. x \<noteq> c) (rev s))) - 1"

definition slice_to :: "string \<Rightarrow> int \<Rightarrow> string" where
  "slice_to s k = (if k < 0 then take (nat (int (length s) + k)) s else take (nat k) s)"

definition slice_from :: "string \<Rightarrow> int \<Rightarrow> string" where
  "slice_from s k = (if k < 0 then drop (nat (int (length s) + k)) s else drop (nat k) s)"

fun contains :: "string \<Rightarrow> string \<Rightarrow> bool" where
  "contains sub [] = (sub = [])"
| "contains sub (c # cs) = (take (length sub) (c # cs) = sub \<or> contains sub cs)"

text \<open>
  The loop over the layers of the map (source lines 39 to 60): what happens to one layer.
  A layer of \<open>layers_to_update\<close> gets the connection to the input feature class; the
  layer \<open>original_loaded\<close> is given \<open>replace_dict\<close> as well when the ingest feature class
  exists (\<open>update_dict\<close> is built and not used), and is removed from the map otherwise.
\<close>

definition update_layer :: "'a world_scheme \<Rightarrow> string \<Rightarrow> string \<Rightarrow> connection \<Rightarrow> layer \<Rightarrow> trace \<times> layer list" where
  "update_layer w to_path orig_fc replace_dict lyr =
     (if layer_name lyr \<in> layers_to_update
      then ([AddMessage [Txt (''Updating '' @ layer_name lyr)],
             Call (UpdateConnectionProperties (layer_name lyr) (database replace_dict) (dataset replace_dict))],
            [lyr\<lparr>connectionProperties := replace_dict\<rparr>])
      else if layer_name lyr = original_layer
      then (if Exists w (to_path @ ''/'' @ orig_fc)
            then (let update_dict = \<lparr>database = to_path, dataset = orig_fc,
                                      workspace_factory = ''File Geodatabase''\<rparr>
                  in ([Call (UpdateConnectionProperties (layer_name lyr) (database replace_dict) (dataset replace_dict))],
                      [lyr\<lparr>connectionProperties := replace_dict\<rparr>]))
            else ([Call (RemoveLayer (layer_name lyr))], []))
      else ([], [lyr]))"

text \<open>
  \<^verbatim>\<open>setup_project\<close> returns nothing; the model returns the layers of the map
  as the project is saved. The test that \<open>to_fc\<close> or \<open>to_path\<close> is an integer is
  never true of the two strings, and has no branch here. Taking the first map of an empty
  list raises \<^verbatim>\<open>IndexError\<close>.
\<close>

definition setup_project :: "'a world_scheme \<Rightarrow> string \<Rightarrow> trace \<times> layer list outcome" where
  "setup_project w fc =
     (let to_path = slice_to fc (rfind fc (CHR 0x5C));
          to_fc = slice_from fc (rfind fc (CHR 0x5C) + 1)
      in if \<not> contains ''.gdb'' to_path
         then ([AddMessage [Txt ''Error, expected input to be in a File Geodatabase.'']], SysExit 1)
         else
           (let iso1 = take 3 to_fc;
                orig_fc = iso1 @ ''_ingest'';
                replace_dict = \<lparr>database = to_path, dataset = to_fc,
                                 workspace_factory = ''File Geodatabase''\<rparr>
            in case listMaps w template ''Gaps*'' of
                 [] \<Rightarrow> ([Call (ImportDocument template)], Raises IndexError)
               | m # _ \<Rightarrow>
                   (let steps = map (update_layer w to_path orig_fc replace_dict) m
                    in ([Call (ImportDocument template), Call (RenameMap ''Gaps and Overlaps'')]
                          @ concat (map fst steps) @ [Call Save],
                        Returns (concat (map snd steps))))))"

definition setup_gap_overlap_review :: "'a world_scheme \<Rightarrow> string \<Rightarrow> trace \<times> layer list outcome" where
  "setup_gap_overlap_review w fc =
     (if \<not> Exists w fc
      then ([AddError [Txt (''Cannot find input feature class '' @ fc)]], SysExit 1)
      else setup_project w fc)"

section \<open>check_eliminate_output: comparing the fields and the counts\<close>

definition field_mismatch :: "string list \<Rightarrow> string list \<Rightarrow> string set" where
  "field_mismatch flds_orig flds_update =
     (let mismatch = set flds_orig - set flds_update;
          mismatch = (if ''gap'' \<in> mismatch then mismatch - {''gap''} else mismatch);
          mismatch = (if ''overlap'' \<in> mismatch then mismatch - {''overlap''} else mismatch)
      in mismatch)"

definition check_counts :: "'a world_scheme \<Rightarrow> string \<Rightarrow> string \<Rightarrow> trace" where
  "check_counts g updated orig =
     (let flds_orig = ListFields g orig;
          flds_update = ListFields g updated;
          mismatch = field_mismatch flds_orig flds_update;
          t1 = (if card mismatch > 0
                then [AddWarning [Txt ''Missing fields in output feature class: ''],
                      AddWarning [StrSet mismatch]]
                else [AddMessage [Txt ''Input and output fields match.'']]);
          orig_count = int (GetCount g orig);
          elim_count = int (GetCount g updated);
          t2 = (if orig_count = elim_count
                then [AddMessage [Txt ''Feature counts match, '', IntVal orig_count,
                        Txt '' polygons in original, '', IntVal elim_count, Txt '' in updated'']]
                else if orig_count > elim_count
                then [AddWarning [Txt ''Feature count mismatch! The original feature class has '',
                        IntVal (orig_count - elim_count), Txt '' more polygons than the updated.'']]
                else if orig_count < elim_count
                then [AddWarning [Txt ''Feature count mismatch! The updated feature class has '',
                        IntVal (elim_count - orig_count), Txt '' more polygons than the original.'']]
                else [])
      in t1 @ t2)"

text \<open>The warning that reports a field mismatch.\<close>

definition warns_field_mismatch :: "trace \<Rightarrow> bool" where
  "warns_field_mismatch t =
     (AddWarning [Txt ''Missing fields in output feature class: ''] \<in> set t)"

section \<open>Gaps, fragments and central polygons\<close>

text \<open>
  The records of the union that \<open>overlap_gap_analysis\<close> works on; a gap record, whose
  \<open>union_uid\<close> is null or 0; the records once \<open>AREA_SQKM\<close> has been calculated.
\<close>

definition unioned :: "'a world_scheme \<Rightarrow> string \<Rightarrow> urow list" where
  "unioned w fc = UnionRows w fc (map (\<lambda>i. int i + 1) [0 ..< GetCount w fc])"

definition null_uid :: "urow \<Rightarrow> bool" where
  "null_uid row = (union_uid row = None)"

definition is_gap :: "urow \<Rightarrow> bool" where
  "is_gap row = (union_uid row = None \<or> union_uid row = Some 0)"

definition with_area :: "urow list \<Rightarrow> urow list" where
  "with_area rs = map (\<lambda>row. row\<lparr>AREA_SQKM := Some (geodesic_area row)\<rparr>) rs"

text \<open>
  The fragments of a unique id; an id is duplicated when it is not 0 and has at least two
  fragments. The central fragment of an id is the first one, in cursor order, that no
  fragment of the id exceeds in area, provided its area is positive. The flag of a
  record: 2 for the central fragment of a duplicated id, 1 for its other fragments, 0 for
  every other record.
\<close>

definition fragments :: "urow list \<Rightarrow> int \<Rightarrow> urow list" where
  "fragments rs uid = filter (\<lambda>r. union_uid r = Some uid) rs"

definition duplicated :: "urow list \<Rightarrow> int \<Rightarrow> bool" where
  "duplicated rs uid = (uid \<noteq> 0 \<and> 2 \<le> length (fragments rs uid))"

definition central :: "urow list \<Rightarrow> int \<Rightarrow> int option" where
  "central rs uid =
     (case filter (\<lambda>r. \<forall>r'\<in>set (fragments rs uid). geodesic_area r' \<le> geodesic_area r) (fragments rs uid) of
        [] \<Rightarrow> None
      | r # _ \<Rightarrow> if 0 < geodesic_area r then Some (OBJECTID r) else None)"

definition overlap_flag :: "urow list \<Rightarrow> urow \<Rightarrow> int" where
  "overlap_flag rs r =
     (case union_uid r of
        None \<Rightarrow> 0
      | Some uid \<Rightarrow>
          if duplicated rs uid then (if central rs uid = Some (OBJECTID r) then 2 else 1) else 0)"

text \<open>The pair that the size scan leaves for an id, as a function of the id's fragments.\<close>

fun largest_first :: "real \<times> int \<Rightarrow> urow list \<Rightarrow> real \<times> int" where
  "largest_first acc [] = acc"
| "largest_first (a, oid) (r # rs) =
     (if geodesic_area r > a then largest_first (geodesic_area r, OBJECTID r) rs
      else largest_first (a, oid) rs)"

section \<open>Observations on a trace\<close>

fun is_error :: "entry \<Rightarrow> bool" where
  "is_error (AddError m) = True"
| "is_error _ = False"

fun is_copy :: "entry \<Rightarrow> bool" where
  "is_copy (Call (CopyFeatures src dst)) = True"
| "is_copy _ = False"

definition reports_error :: "trace \<Rightarrow> bool" where
  "reports_error t = list_ex is_error t"

definition makes_copy :: "trace \<Rightarrow> bool" where
  "makes_copy t = list_ex is_copy t"

fun the_call :: "entry \<Rightarrow> toolkit_call list" where
  "the_call (Call c) = [c]"
| "the_call _ = []"

definition calls :: "trace \<Rightarrow> toolkit_call list" where
  "calls t = concat (map the_call t)"

definition lines_read :: "file_read \<Rightarrow> string list" where
  "lines_read r = (case r of Lines ls \<Rightarrow> ls | IOErrorAfter ls \<Rightarrow> ls)"

section \<open>Example inputs\<close>

text \<open>
  A layer of two polygons in geographic coordinates on WGS84. Its union has four records:
  polygon 1 in two fragments, polygon 2, and one record without a polygon of the input,
  whose \<open>union_uid\<close> is 0.
\<close>

definition wgs84_polygons :: description where
  "wgs84_polygons =
     \<lparr>spatialReference_name = ''GCS_WGS_1984'', spatialReference_type = ''Geographic'',
      datumCode = 6326, spheroidCode = 7030, extent = ''-10 -10 10 10'', shapeType = ''Polygon''\<rparr>"

definition example_union :: "urow list" where
  "example_union =
     [\<lparr>OBJECTID = 1, union_uid = Some 1, geodesic_area = 5, AREA_SQKM = None, overlaps = None, gaps = None\<rparr>,
      \<lparr>OBJECTID = 2, union_uid = Some 1, geodesic_area = 1, AREA_SQKM = None, overlaps = None, gaps = None\<rparr>,
      \<lparr>OBJECTID = 3, union_uid = Some 2, geodesic_area = 3, AREA_SQKM = None, overlaps = None, gaps = None\<rparr>,
      \<lparr>OBJECTID = 4, union_uid = Some 0, geodesic_area = 2, AREA_SQKM = None, overlaps = None, gaps = None\<rparr>]"

definition example_world :: world where
  "example_world =
     \<lparr>Exists = (\<lambda>p. True), ListFields = (\<lambda>p. [''NAME'', ''POP'']),
      GetCount = (\<lambda>p. if p = check_geom_table then 0 else 2),
      Describe = (\<lambda>p. wgs84_polygons), read_file = (\<lambda>p. Lines []),
      absolute_posix = (\<lambda>p. ''C:/out''), UnionRows = (\<lambda>p uids. example_union),
      listMaps = (\<lambda>t pat. [])\<rparr>"

definition example_args :: boundary_args where
  "example_args =
     \<lparr>input_features = ''in.shp'', iso_code = ''USA'', out_folder = ''out'', check_iso = True\<rparr>"

text \<open>
  The same layer when the record without a polygon has a null \<open>union_uid\<close>, and a union
  of it in which the two fragments of polygon 1 have the same area.
\<close>

definition mixed_union :: "urow list" where
  "mixed_union =
     [\<lparr>OBJECTID = 1, union_uid = Some 1, geodesic_area = 5, AREA_SQKM = None, overlaps = None, gaps = None\<rparr>,
      \<lparr>OBJECTID = 2, union_uid = Some 1, geodesic_area = 1, AREA_SQKM = None, overlaps = None, gaps = None\<rparr>,
      \<lparr>OBJECTID = 3, union_uid = Some 2, geodesic_area = 3, AREA_SQKM = None, overlaps = None, gaps = None\<rparr>,
      \<lparr>OBJECTID = 4, union_uid = None, geodesic_area = 2, AREA_SQKM = None, overlaps = None, gaps = None\<rparr>]"

definition world_mixed :: world where
  "world_mixed = example_world\<lparr>UnionRows := (\<lambda>p uids. mixed_union)\<rparr>"

definition tie_union :: "urow list" where
  "tie_union =
     [\<lparr>OBJECTID = 1, union_uid = Some 1, geodesic_area = 5, AREA_SQKM = None, overlaps = None, gaps = None\<rparr>,
      \<lparr>OBJECTID = 2, union_uid = Some 1, geodesic_area = 5, AREA_SQKM = None, overlaps = None, gaps = None\<rparr>,
      \<lparr>OBJECTID = 3, union_uid = Some 2, geodesic_area = 3, AREA_SQKM = None, overlaps = None, gaps = None\<rparr>]"

definition world_tie :: world where
  "world_tie = example_world\<lparr>UnionRows := (\<lambda>p uids. tie_union)\<rparr>"

text \<open>The same layer when the reserved-words file cannot be opened.\<close>

definition world_unreadable :: world where
  "world_unreadable = example_world\<lparr>read_file := (\<lambda>p. IOErrorAfter [])\<rparr>"

text \<open>The same layer with multipatch geometry, and with point geometry.\<close>

definition world_multipatch :: world where
  "world_multipatch = example_world\<lparr>Describe := (\<lambda>p. wgs84_polygons\<lparr>shapeType := ''MultiPatch''\<rparr>)\<rparr>"

definition world_points :: world where
  "world_points = example_world\<lparr>Describe := (\<lambda>p. wgs84_polygons\<lparr>shapeType := ''Point''\<rparr>)\<rparr>"

text \<open>A layer with a field named \<open>_rowid_\<close>, which is also a reserved word.\<close>

definition world_rowid :: world where
  "world_rowid = example_world
     \<lparr>ListFields := (\<lambda>p. [''_rowid_'', ''name'']),
      read_file := (\<lambda>p. Lines [''_ROWID_'' @ newline, ''NAME'' @ newline])\<rparr>"

text \<open>An original with a field that the updated feature class lacks, and one without.\<close>

definition world_missing_field :: world where
  "world_missing_field = example_world
     \<lparr>ListFields := (\<lambda>p. if p = ''orig'' then [''NAME'', ''gap'', ''POP''] else [''NAME'', ''extra''])\<rparr>"

definition world_extra_field :: world where
  "world_extra_field = example_world
     \<lparr>ListFields := (\<lambda>p. if p = ''orig'' then [''NAME'', ''gap''] else [''NAME'', ''gap'', ''extra''])\<rparr>"

text \<open>
  A unioned feature class with both flag fields, and a threshold of half a square
  kilometre.
\<close>

definition world_flagged :: world where
  "world_flagged = example_world\<lparr>ListFields := (\<lambda>p. [''OBJECTID'', ''union_uid'', ''AREA_SQKM'', ''overlaps'', ''gaps''])\<rparr>"

definition flagged_args :: eliminate_args where
  "flagged_args = \<lparr>elim_input_features = ''usa_ingest_union'', max_area = ''0.5''\<rparr>"

text \<open>
  A review project whose template map has the four layers, and the unioned feature class
  of a geodatabase that also holds the ingest feature class.
\<close>

definition review_gdb :: string where
  "review_gdb = ''C:'' @ backslash @ ''data'' @ backslash @ ''usa_ingest.gdb''"

definition review_fc :: string where
  "review_fc = review_gdb @ backslash @ ''usa_ingest_union''"

definition template_connection :: connection where
  "template_connection = \<lparr>database = ''template.gdb'', dataset = ''template_union'', workspace_factory = ''File Geodatabase''\<rparr>"

definition template_layers :: "layer list" where
  "template_layers =
     [\<lparr>layer_name = ''overlaps'', connectionProperties = template_connection\<rparr>,
      \<lparr>layer_name = ''gaps'', connectionProperties = template_connection\<rparr>,
      \<lparr>layer_name = ''admin_union'', connectionProperties = template_connection\<rparr>,
      \<lparr>layer_name = ''original_loaded'', connectionProperties = template_connection\<rparr>]"

definition world_review :: world where
  "world_review = example_world\<lparr>listMaps := (\<lambda>t pat. [template_layers])\<rparr>"


section \<open>Properties\<close>

subsection \<open>Strings\<close>

lemma lower_char_idem: "lower_char (lower_char c) = lower_char c"
  by (simp add: lower_char_def Let_def)

lemma lower_idem: "lower (lower s) = lower s"
  by (simp add: lower_def lower_char_idem)

subsection \<open>The ISO code\<close>

lemma ISOS_TO_CHANGE_defined: "k \<in> BAD_ISOS \<Longrightarrow> map_of ISOS_TO_CHANGE k \<noteq> None"
  by (auto simp: BAD_ISOS_def ISOS_TO_CHANGE_def)

lemma BAD_ISOS_eq: "BAD_ISOS = {''and'', ''vat''}"
  by (auto simp: BAD_ISOS_def ISOS_TO_CHANGE_def)

lemma check_iso_code_eq:
  "check_iso_code s =
     (if lower s = ''and'' then ''adr'' else if lower s = ''vat'' then ''vcs'' else lower s)"
  by (simp add: check_iso_code_def Let_def BAD_ISOS_eq ISOS_TO_CHANGE_def)

lemma lower_adr: "lower ''adr'' = ''adr''"
  by (simp add: lower_def lower_char_def)

lemma lower_vcs: "lower ''vcs'' = ''vcs''"
  by (simp add: lower_def lower_char_def)

text \<open>
  C9. For every string \<open>s\<close>, \<open>check_iso_code s\<close> is the lower-cased code with
  \<open>and\<close> replaced by \<open>adr\<close> and \<open>vat\<close> replaced by \<open>vcs\<close>; the result is never in the
  unsupported set \<open>{and, vat}\<close>; and applying \<open>check_iso_code\<close> twice gives the same as
  applying it once.
\<close>

theorem check_iso_code_idempotent_avoiding:
  "check_iso_code s =
     (if lower s = ''and'' then ''adr'' else if lower s = ''vat'' then ''vcs'' else lower s)
   \<and> check_iso_code s \<notin> BAD_ISOS
   \<and> BAD_ISOS = {''and'', ''vat''}
   \<and> check_iso_code (check_iso_code s) = check_iso_code s"
proof -
  have avoid: "check_iso_code s \<notin> BAD_ISOS"
    by (simp add: check_iso_code_eq BAD_ISOS_eq)
  have idem: "check_iso_code (check_iso_code s) = check_iso_code s"
  proof (cases "lower s = ''and''")
    case True
    then show ?thesis by (simp add: check_iso_code_eq lower_adr)
  next
    case False
    show ?thesis
    proof (cases "lower s = ''vat''")
      case True
      then show ?thesis by (simp add: check_iso_code_eq lower_vcs)
    next
      case False
      with \<open>lower s \<noteq> ''and''\<close> show ?thesis
        by (simp add: check_iso_code_eq lower_idem)
    qed
  qed
  from avoid idem show ?thesis
    by (simp add: check_iso_code_eq BAD_ISOS_eq)
qed

theorem check_iso_code_idempotent_avoiding_witness:
  "check_iso_code ''AND'' = ''adr'' \<and> check_iso_code (check_iso_code ''AND'') = ''adr''
   \<and> ''adr'' \<notin> BAD_ISOS"
proof -
  note t = check_iso_code_idempotent_avoiding [of "''AND''"]
  have l: "lower ''AND'' = ''and''"
    by code_simp
  have a: "check_iso_code ''AND'' = ''adr''"
    using t by (simp add: l)
  have b: "check_iso_code ''AND'' \<notin> BAD_ISOS"
    using t by blast
  have c: "check_iso_code (check_iso_code ''AND'') = check_iso_code ''AND''"
    using t by blast
  from b c show ?thesis
    unfolding a by (simp add: a)
qed

subsection \<open>check_counts\<close>

lemma field_mismatch_eq:
  "field_mismatch flds_orig flds_update = set flds_orig - set flds_update - {''gap'', ''overlap''}"
  by (auto simp: field_mismatch_def Let_def)

lemma warns_check_counts:
  "warns_field_mismatch (check_counts g updated orig)
   \<longleftrightarrow> field_mismatch (ListFields g orig) (ListFields g updated) \<noteq> {}"
proof -
  have fin: "finite (field_mismatch (ListFields g orig) (ListFields g updated))"
    by (simp add: field_mismatch_eq)
  then have "card (field_mismatch (ListFields g orig) (ListFields g updated)) > 0
             \<longleftrightarrow> field_mismatch (ListFields g orig) (ListFields g updated) \<noteq> {}"
    by (simp add: card_gt_0_iff)
  then show ?thesis
    by (simp add: warns_field_mismatch_def check_counts_def Let_def)
qed

text \<open>
  C10. \<open>check_counts\<close> warns about a field mismatch if and only if some field name of
  the original feature class, other than \<open>gap\<close> and \<open>overlap\<close>, is absent from the
  updated feature class; in particular, when every original field name is present in the
  updated feature class there is no warning, whatever other names the updated one has.
\<close>

theorem check_counts_warns_iff:
  "(warns_field_mismatch (check_counts g updated orig)
    \<longleftrightarrow> (\<exists>f \<in> set (ListFields g orig).
           f \<noteq> ''gap'' \<and> f \<noteq> ''overlap'' \<and> f \<notin> set (ListFields g updated)))
   \<and> (set (ListFields g orig) \<subseteq> set (ListFields g updated)
        \<longrightarrow> \<not> warns_field_mismatch (check_counts g updated orig))"
  by (auto simp: warns_check_counts field_mismatch_eq)

theorem check_counts_warns_iff_witness:
  "warns_field_mismatch (check_counts world_missing_field ''upd'' ''orig'')
   \<and> set (ListFields world_extra_field ''orig'') \<subseteq> set (ListFields world_extra_field ''upd'')
   \<and> \<not> warns_field_mismatch (check_counts world_extra_field ''upd'' ''orig'')"
  using check_counts_warns_iff [of world_missing_field "''upd''" "''orig''"]
    check_counts_warns_iff [of world_extra_field "''upd''" "''orig''"]
  by (simp add: world_missing_field_def world_extra_field_def example_world_def)

subsection \<open>Reserved words and field names\<close>

lemma fold_insert_strip:
  "fold (\<lambda>line reserved_words. insert (strip line) reserved_words) ls S = strip ` set ls \<union> S"
  by (induction ls arbitrary: S) auto

lemma reserved_words_eq:
  "snd (read_reserved_words w) = strip ` set (lines_read (read_file w RESERVED_WORDS_FILE))"
  by (simp add: read_reserved_words_def Let_def lines_read_def fold_insert_strip split: file_read.splits)

lemma map_of_reserved_loop:
  "map_of (snd (fold (\<lambda>fld (t, d).
                     if fld \<in> R
                     then (t @ [AddMessage [Txt (''Field '' @ fld @ '' is a reserved name, adding an underscore.'')]],
                           AList.update fld (fld @ ''_'') d)
                     else (t, d)) flds (t0, d0))) n
   = (if n \<in> set flds \<and> n \<in> R then Some (n @ ''_'') else map_of d0 n)"
  by (induction flds arbitrary: t0 d0) (auto simp: update_conv')

lemma map_of_edge_loop:
  "map_of (fold (\<lambda>fld d.
                     if starts_with_digit fld then AList.update fld (''t_'' @ fld) d
                     else if starts_with_underscore fld then AList.update fld (''t'' @ fld) d
                     else d) flds d0) n
   = (if n \<in> set flds \<and> starts_with_digit n then Some (''t_'' @ n)
      else if n \<in> set flds \<and> starts_with_underscore n then Some (''t'' @ n)
      else map_of d0 n)"
  by (induction flds arbitrary: d0) (auto simp: update_conv')

lemma distinct_reserved_loop:
  "distinct (map fst d0) \<Longrightarrow> distinct (map fst (snd (fold (\<lambda>fld (t, d).
                     if fld \<in> R
                     then (t @ [AddMessage [Txt (''Field '' @ fld @ '' is a reserved name, adding an underscore.'')]],
                           AList.update fld (fld @ ''_'') d)
                     else (t, d)) flds (t0, d0))))"
  by (induction flds arbitrary: t0 d0) (auto simp: distinct_update)

lemma distinct_edge_loop:
  "distinct (map fst d0) \<Longrightarrow> distinct (map fst (fold (\<lambda>fld d.
                     if starts_with_digit fld then AList.update fld (''t_'' @ fld) d
                     else if starts_with_underscore fld then AList.update fld (''t'' @ fld) d
                     else d) flds d0))"
  by (induction flds arbitrary: d0) (auto simp: distinct_update)

text \<open>
  C7, as stated, fails where a reserved word starts with an underscore: the field
  \<open>_rowid_\<close> is found in the reserved set, and its entry is \<open>t_ROWID_\<close>, not
  \<open>_ROWID__\<close>.
\<close>

theorem check_fields_reserved_entry_counterexample:
  "''_ROWID_'' \<in> snd (read_reserved_words world_rowid)
   \<and> ''_ROWID_'' \<in> set (map upper (ListFields world_rowid ''fc''))
   \<and> snd (check_fields world_rowid ''fc'') = [(''_ROWID_'', ''t_ROWID_''), (''NAME'', ''NAME_'')]"
  by code_simp

text \<open>
  C7, amended. The mapping \<open>check_fields\<close> returns has, for every upper-cased field
  name of the layer: the entry \<open>t_NAME\<close> when the name starts with a digit, the entry
  \<open>tNAME\<close> when it starts with an underscore, the entry \<open>NAME_\<close> when it starts with
  neither and is one of the stripped lines read from the reserved-words file, and no
  entry otherwise; it has no other entries, and no key twice.
\<close>

theorem check_fields_mapping:
  "map_of (snd (check_fields w fc)) name =
     (if name \<in> set (map upper (ListFields w fc))
      then (if starts_with_digit name then Some (''t_'' @ name)
            else if starts_with_underscore name then Some (''t'' @ name)
            else if name \<in> strip ` set (lines_read (read_file w RESERVED_WORDS_FILE))
            then Some (name @ ''_'') else None)
      else None)
   \<and> distinct (map fst (snd (check_fields w fc)))"
proof -
  obtain t0 R where r: "read_reserved_words w = (t0, R)"
    by (cases "read_reserved_words w")
  then have R: "R = strip ` set (lines_read (read_file w RESERVED_WORDS_FILE))"
    using reserved_words_eq [of w] by simp
  obtain t2 d where f: "fold (\<lambda>fld (t, d).
                     if fld \<in> R
                     then (t @ [AddMessage [Txt (''Field '' @ fld @ '' is a reserved name, adding an underscore.'')]],
                           AList.update fld (fld @ ''_'') d)
                     else (t, d)) (map upper (ListFields w fc)) ([], []) = (t2, d)"
    by (cases "fold (\<lambda>fld (t, d).
                     if fld \<in> R
                     then (t @ [AddMessage [Txt (''Field '' @ fld @ '' is a reserved name, adding an underscore.'')]],
                           AList.update fld (fld @ ''_'') d)
                     else (t, d)) (map upper (ListFields w fc)) ([], [])")
  have d1: "map_of d n = (if n \<in> set (map upper (ListFields w fc)) \<and> n \<in> R then Some (n @ ''_'') else None)" for n
    using map_of_reserved_loop [of R "map upper (ListFields w fc)" "[]" "[]" n] f by simp
  have d2: "distinct (map fst d)"
    using distinct_reserved_loop [of "[]" R "map upper (ListFields w fc)" "[]"] f by simp
  have c: "snd (check_fields w fc) = fold (\<lambda>fld d.
                     if starts_with_digit fld then AList.update fld (''t_'' @ fld) d
                     else if starts_with_underscore fld then AList.update fld (''t'' @ fld) d
                     else d) (map upper (ListFields w fc)) d"
    by (simp add: check_fields_def r f Let_def)
  show ?thesis
    unfolding c using d2 by (auto simp: map_of_edge_loop d1 R distinct_edge_loop simp del: set_map)
qed


theorem check_fields_mapping_witness:
  "map_of (snd (check_fields world_rowid ''fc'')) ''NAME'' = Some ''NAME_''
   \<and> map_of (snd (check_fields world_rowid ''fc'')) ''_ROWID_'' = Some ''t_ROWID_''
   \<and> map_of (snd (check_fields world_rowid ''fc'')) ''POP'' = None"
proof -
  have u: "map upper (ListFields world_rowid ''fc'') = [''_ROWID_'', ''NAME'']"
    by code_simp
  have r: "strip ` set (lines_read (read_file world_rowid RESERVED_WORDS_FILE)) = {''_ROWID_'', ''NAME''}"
    by code_simp
  have d: "\<not> starts_with_digit ''NAME''" "\<not> starts_with_underscore ''NAME''"
    "\<not> starts_with_digit ''_ROWID_''" "starts_with_underscore ''_ROWID_''"
    by code_simp+
  show ?thesis
    using check_fields_mapping [of world_rowid "''fc''" "''NAME''"]
      check_fields_mapping [of world_rowid "''fc''" "''_ROWID_''"]
      check_fields_mapping [of world_rowid "''fc''" "''POP''"]
    by (simp add: u r d)
qed

subsection \<open>Gaps and overlaps in the union\<close>

lemma truthy_is_gap: "(\<not> truthy (union_uid r)) = is_gap r"
  by (auto simp: truthy_def is_gap_def split: option.splits)

lemma count_gaps_uids_fold:
  "fold (\<lambda>row (gap_count, uids).
             if \<not> truthy (union_uid row) then (gap_count + 1, uids)
             else (gap_count, uids @ [the (union_uid row)])) rs (g, us)
   = (g + int (length (filter is_gap rs)), us @ map (\<lambda>r. the (union_uid r)) (filter (\<lambda>r. \<not> is_gap r) rs))"
  by (induction rs arbitrary: g us) (auto simp: truthy_is_gap)

lemma count_gaps_uids_eq:
  "count_gaps_uids rs
   = (int (length (filter is_gap rs)), map (\<lambda>r. the (union_uid r)) (filter (\<lambda>r. \<not> is_gap r) rs))"
  by (simp add: count_gaps_uids_def count_gaps_uids_fold)

lemma flag_overlaps_returns:
  "\<forall>r\<in>set rs. union_uid r \<noteq> None \<Longrightarrow>
   flag_overlaps dupes mains rs =
     Returns (map (\<lambda>row. row\<lparr>overlaps := Some (if the (union_uid row) \<in> dupes
                                               then (if OBJECTID row \<in> mains then 2 else 1)
                                               else 0)\<rparr>) rs)"
  by (induction rs) auto

lemma flag_overlaps_raises:
  "r \<in> set rs \<Longrightarrow> union_uid r = None \<Longrightarrow> flag_overlaps dupes mains rs = Raises TypeError"
  by (induction rs) (auto split: option.splits)

lemma overlap_size_scan_total:
  "\<forall>r\<in>set rs. union_uid r \<noteq> None \<and> AREA_SQKM r \<noteq> None \<Longrightarrow> \<forall>x\<in>dupes. sizes x \<noteq> None \<Longrightarrow>
   \<exists>s. overlap_size_scan dupes rs sizes = Returns s \<and> (\<forall>x\<in>dupes. s x \<noteq> None)"
proof (induction rs arbitrary: sizes)
  case Nil
  then show ?case by simp
next
  case (Cons row rs)
  then obtain uid area where u: "union_uid row = Some uid" and a: "AREA_SQKM row = Some area"
    by auto
  have rest: "\<forall>r\<in>set rs. union_uid r \<noteq> None \<and> AREA_SQKM r \<noteq> None"
    using Cons.prems(1) by simp
  show ?case
  proof (cases "OBJECTID row \<noteq> 0 \<and> uid \<in> dupes")
    case False
    then show ?thesis
      using Cons.IH [OF rest Cons.prems(2)] u a by auto
  next
    case True
    then obtain largest oid where s: "sizes uid = Some (largest, oid)"
      using Cons.prems(2) by fastforce
    show ?thesis
    proof (cases "area > largest")
      case True
      then have "overlap_size_scan dupes (row # rs) sizes
                 = overlap_size_scan dupes rs (sizes(uid \<mapsto> (area, OBJECTID row)))"
        using \<open>OBJECTID row \<noteq> 0 \<and> uid \<in> dupes\<close> u a s by simp
      moreover have "\<exists>s. overlap_size_scan dupes rs (sizes(uid \<mapsto> (area, OBJECTID row))) = Returns s
                         \<and> (\<forall>x\<in>dupes. s x \<noteq> None)"
        by (rule Cons.IH [OF rest]) (use Cons.prems(2) in simp)
      ultimately show ?thesis
        by simp
    next
      case False
      then have "overlap_size_scan dupes (row # rs) sizes = overlap_size_scan dupes rs sizes"
        using \<open>OBJECTID row \<noteq> 0 \<and> uid \<in> dupes\<close> u a s by simp
      then show ?thesis
        using Cons.IH [OF rest Cons.prems(2)] by simp
    qed
  qed
qed

lemma overlap_pass_returns:
  assumes "\<forall>r\<in>set rs. union_uid r \<noteq> None \<and> AREA_SQKM r \<noteq> None"
  shows "\<exists>rs'. snd (overlap_pass fc_union flds uids rs) = Returns rs'
           \<and> map union_uid rs' = map union_uid rs \<and> length rs' = length rs"
proof -
  have "\<forall>x\<in>find_dupes uids {}. initial_overlap_sizes (find_dupes uids {}) x \<noteq> None"
    by (simp add: initial_overlap_sizes_def)
  with assms obtain s where s: "overlap_size_scan (find_dupes uids {}) rs
      (initial_overlap_sizes (find_dupes uids {})) = Returns s"
    using overlap_size_scan_total by blast
  have "\<forall>r\<in>set rs. union_uid r \<noteq> None"
    using assms by simp
  then show ?thesis
    by (simp add: overlap_pass_def Let_def s flag_overlaps_returns comp_def)
qed

lemma snd_and_then:
  "snd (and_then m f) =
     (case snd m of Returns x \<Rightarrow> snd (f x) | SysExit n \<Rightarrow> SysExit n | Raises e \<Rightarrow> Raises e)"
  by (cases m) (auto simp: and_then_def split: outcome.splits prod.splits)

lemma overlap_gap_analysis_more:
  assumes "GetCount w fc < length (unioned w fc)"
  shows "snd (overlap_gap_analysis w fc) =
     (let rs = unioned w fc;
          gap_count = int (length (filter is_gap rs));
          uids = map (\<lambda>r. the (union_uid r)) (filter (\<lambda>r. \<not> is_gap r) rs);
          overlap_count = int (length uids) - int (GetCount w fc);
          rs1 = (if overlap_count \<noteq> 0 \<or> gap_count \<noteq> 0 then with_area rs else rs)
      in case (if overlap_count > 0
               then snd (overlap_pass (fc @ ''_union'') (map lower (ListFields w (fc @ ''_union''))) uids rs1)
               else Returns rs1) of
           Returns rs2 \<Rightarrow> Returns (if gap_count > 0 then flag_gaps rs2 else rs2, gap_count, overlap_count)
         | SysExit n \<Rightarrow> SysExit n
         | Raises e \<Rightarrow> Raises e)"
  using assms
  by (simp add: overlap_gap_analysis_def unioned_def Let_def count_gaps_uids_eq snd_and_then
      gap_pass_def with_area_def split: outcome.splits)

text \<open>
  When the union has no more records than the input, nothing is counted or flagged.
\<close>

lemma overlap_gap_analysis_no_more:
  "length (unioned w fc) \<le> GetCount w fc \<Longrightarrow>
   snd (overlap_gap_analysis w fc) = Returns (unioned w fc, 0, 0)"
  by (simp add: overlap_gap_analysis_def unioned_def Let_def)

text \<open>
  C3. On a union that holds both duplicated ids and a record with a null \<open>union_uid\<close>,
  the overlap pass converts the null id to an integer: the size scan raises
  \<^verbatim>\<open>TypeError\<close>, the flag update would raise it as well, and
  \<open>overlap_gap_analysis\<close> ends with that exception.
\<close>

theorem null_uid_overlap_pass_raises:
  "snd (overlap_gap_analysis world_mixed ''fc'') = Raises TypeError
   \<and> overlap_size_scan (find_dupes [1, 1, 2] {}) (with_area mixed_union)
         (initial_overlap_sizes (find_dupes [1, 1, 2] {})) = Raises TypeError
   \<and> flag_overlaps (find_dupes [1, 1, 2] {}) {1} (with_area mixed_union) = Raises TypeError"
proof (intro conjI)
  show "snd (overlap_gap_analysis world_mixed ''fc'') = Raises TypeError"
    by code_simp
  show "overlap_size_scan (find_dupes [1, 1, 2] {}) (with_area mixed_union)
          (initial_overlap_sizes (find_dupes [1, 1, 2] {})) = Raises TypeError"
    by (simp add: with_area_def mixed_union_def initial_overlap_sizes_def)
  show "flag_overlaps (find_dupes [1, 1, 2] {}) {1} (with_area mixed_union) = Raises TypeError"
    by (simp add: with_area_def mixed_union_def)
qed

theorem null_uid_overlap_pass_raises_witness:
  "map union_uid (unioned world_mixed ''fc'') = [Some 1, Some 1, Some 2, None]
   \<and> GetCount world_mixed ''fc'' = 2
   \<and> snd (overlap_gap_analysis world_mixed ''fc'') = Raises TypeError"
proof -
  have "map union_uid (unioned world_mixed ''fc'') = [Some 1, Some 1, Some 2, None]"
    "GetCount world_mixed ''fc'' = 2"
    by code_simp+
  with null_uid_overlap_pass_raises show ?thesis
    by simp
qed

text \<open>
  C1, as stated, fails where a gap record has the \<open>union_uid\<close> 0: no record of the
  union has a null \<open>union_uid\<close>, one gap is reported, and the \<open>gaps\<close> field of the
  fourth record is 1.
\<close>

theorem gaps_null_counterexample:
  "filter null_uid (unioned example_world ''fc'') = []
   \<and> snd (overlap_gap_analysis example_world ''fc'') =
       Returns
        ([\<lparr>OBJECTID = 1, union_uid = Some 1, geodesic_area = 5, AREA_SQKM = Some 5, overlaps = Some 2, gaps = Some 0\<rparr>,
          \<lparr>OBJECTID = 2, union_uid = Some 1, geodesic_area = 1, AREA_SQKM = Some 1, overlaps = Some 1, gaps = Some 0\<rparr>,
          \<lparr>OBJECTID = 3, union_uid = Some 2, geodesic_area = 3, AREA_SQKM = Some 3, overlaps = Some 0, gaps = Some 0\<rparr>,
          \<lparr>OBJECTID = 4, union_uid = Some 0, geodesic_area = 2, AREA_SQKM = Some 2, overlaps = Some 0, gaps = Some 1\<rparr>],
         1, 1)"
  by code_simp

text \<open>
  C1, amended. For every unioned feature class that has more records than the input
  feature class, and in which the records with a \<open>union_uid\<close> other than null and 0 do
  not outnumber the input records or no \<open>union_uid\<close> is null, \<open>overlap_gap_analysis\<close>
  returns, the number of gaps it reports is the number of union records whose
  \<open>union_uid\<close> is null or 0, and when that number is positive the \<open>gaps\<close> field is 1 on
  exactly those records and 0 on every other record.
\<close>

theorem gaps_reported_and_flagged:
  assumes more: "GetCount w fc < length (unioned w fc)"
      and safe: "int (length (filter (\<lambda>r. \<not> is_gap r) (unioned w fc))) \<le> int (GetCount w fc)
                 \<or> (\<forall>r\<in>set (unioned w fc). union_uid r \<noteq> None)"
  shows "\<exists>rs' ov. snd (overlap_gap_analysis w fc)
                     = Returns (rs', int (length (filter is_gap (unioned w fc))), ov)
           \<and> map union_uid rs' = map union_uid (unioned w fc)
           \<and> (0 < length (filter is_gap (unioned w fc))
                \<longrightarrow> map gaps rs' = map (\<lambda>r. Some (if is_gap r then 1 else 0)) (unioned w fc))"
proof -
  let ?rs = "unioned w fc"
  let ?uids = "map (\<lambda>r. the (union_uid r)) (filter (\<lambda>r. \<not> is_gap r) ?rs)"
  let ?ov = "int (length ?uids) - int (GetCount w fc)"
  let ?g = "int (length (filter is_gap ?rs))"
  let ?rs1 = "if ?ov \<noteq> 0 \<or> ?g \<noteq> 0 then with_area ?rs else ?rs"
  have uid1: "map union_uid ?rs1 = map union_uid ?rs"
    by (simp add: with_area_def comp_def)
  have fg: "map gaps (flag_gaps rs) = map (\<lambda>u. Some (if \<not> truthy u then 1 else 0)) (map union_uid rs)"
    and fu: "map union_uid (flag_gaps rs) = map union_uid rs" for rs
    by (simp_all add: flag_gaps_def comp_def)
  have gapmap: "map (\<lambda>u. Some (if \<not> truthy u then 1 else (0::int))) (map union_uid ?rs)
                = map (\<lambda>r. Some (if is_gap r then 1 else 0)) ?rs"
    by (simp add: comp_def truthy_is_gap)
  obtain rs2 where rs2: "(if ?ov > 0
               then snd (overlap_pass (fc @ ''_union'') (map lower (ListFields w (fc @ ''_union''))) ?uids ?rs1)
               else Returns ?rs1) = Returns rs2" and u2: "map union_uid rs2 = map union_uid ?rs"
  proof (cases "?ov > 0")
    case False
    then show ?thesis using that uid1 by simp
  next
    case True
    with safe have "\<forall>r\<in>set ?rs. union_uid r \<noteq> None"
      by simp
    then have "\<forall>r\<in>set ?rs1. union_uid r \<noteq> None \<and> AREA_SQKM r \<noteq> None"
      using True by (auto simp: with_area_def)
    from overlap_pass_returns [OF this] obtain rs' where
      "snd (overlap_pass (fc @ ''_union'') (map lower (ListFields w (fc @ ''_union''))) ?uids ?rs1) = Returns rs'"
      "map union_uid rs' = map union_uid ?rs1"
      by blast
    then show ?thesis using that True uid1 by simp
  qed
  have "snd (overlap_gap_analysis w fc) = Returns (if ?g > 0 then flag_gaps rs2 else rs2, ?g, ?ov)"
    by (simp only: overlap_gap_analysis_more [OF more] Let_def rs2 outcome.case)
  moreover have "map union_uid (if ?g > 0 then flag_gaps rs2 else rs2) = map union_uid ?rs"
    using u2 by (simp add: fu)
  moreover have "0 < length (filter is_gap ?rs) \<longrightarrow>
      map gaps (if ?g > 0 then flag_gaps rs2 else rs2) = map (\<lambda>r. Some (if is_gap r then 1 else 0)) ?rs"
    using u2 gapmap by (simp add: fg)
  ultimately show ?thesis
    by blast
qed


theorem gaps_reported_and_flagged_witness:
  "GetCount example_world ''fc'' < length (unioned example_world ''fc'')
   \<and> map union_uid (unioned example_world ''fc'') = [Some 1, Some 1, Some 2, Some 0]
   \<and> (\<exists>rs' ov. snd (overlap_gap_analysis example_world ''fc'') = Returns (rs', 1, ov)
         \<and> map gaps rs' = [Some 0, Some 0, Some 0, Some 1])"
proof -
  have h1: "GetCount example_world ''fc'' < length (unioned example_world ''fc'')"
    by code_simp
  have h2: "\<forall>r\<in>set (unioned example_world ''fc''). union_uid r \<noteq> None"
    by code_simp
  have g: "length (filter is_gap (unioned example_world ''fc'')) = 1"
    by code_simp
  have m: "map (\<lambda>r. Some (if is_gap r then 1 else (0::int))) (unioned example_world ''fc'')
           = [Some 0, Some 0, Some 0, Some 1]"
    by code_simp
  have u: "map union_uid (unioned example_world ''fc'') = [Some 1, Some 1, Some 2, Some 0]"
    by code_simp
  note t = gaps_reported_and_flagged [OF h1 disjI2 [OF h2], unfolded g m]
  from t h1 u show ?thesis
    by auto
qed

lemma largest_first_unchanged:
  "\<forall>r\<in>set fr. geodesic_area r \<le> a \<Longrightarrow> largest_first (a, oid) fr = (a, oid)"
  by (induction fr) auto

lemma exists_largest:
  "xs \<noteq> [] \<Longrightarrow> \<exists>m\<in>set xs. \<forall>r\<in>set xs. geodesic_area r \<le> geodesic_area m"
proof (induction xs)
  case Nil
  then show ?case by simp
next
  case (Cons z zs)
  show ?case
  proof (cases "zs = []")
    case True
    then show ?thesis by simp
  next
    case False
    from Cons.IH [OF this] obtain m where m: "m \<in> set zs" "\<forall>r\<in>set zs. geodesic_area r \<le> geodesic_area m"
      by blast
    show ?thesis
    proof (cases "geodesic_area z \<le> geodesic_area m")
      case True
      with m show ?thesis by auto
    next
      case False
      then have "\<forall>r\<in>set zs. geodesic_area r \<le> geodesic_area z"
        using m(2) by fastforce
      then show ?thesis by auto
    qed
  qed
qed

lemma largest_first_eq:
  "largest_first (a, oid) fr =
     (case filter (\<lambda>r. \<forall>r'\<in>set fr. geodesic_area r' \<le> geodesic_area r) fr of
        [] \<Rightarrow> (a, oid)
      | r # _ \<Rightarrow> if a < geodesic_area r then (geodesic_area r, OBJECTID r) else (a, oid))"
proof (induction fr arbitrary: a oid)
  case Nil
  then show ?case by simp
next
  case (Cons x xs)
  let ?top = "\<lambda>ys r. \<forall>r'\<in>set ys. geodesic_area r' \<le> geodesic_area r"
  show ?case
  proof (cases "\<forall>r'\<in>set xs. geodesic_area r' \<le> geodesic_area x")
    case True
    then have f: "filter (?top (x # xs)) (x # xs) = x # filter (?top (x # xs)) xs"
      by simp
    have "largest_first (a, oid) (x # xs) = (if a < geodesic_area x then (geodesic_area x, OBJECTID x) else (a, oid))"
    proof (cases "a < geodesic_area x")
      case True
      then show ?thesis
        using \<open>\<forall>r'\<in>set xs. geodesic_area r' \<le> geodesic_area x\<close>
        by (simp add: largest_first_unchanged)
    next
      case False
      then have "\<forall>r'\<in>set xs. geodesic_area r' \<le> a"
        using \<open>\<forall>r'\<in>set xs. geodesic_area r' \<le> geodesic_area x\<close> by fastforce
      then show ?thesis
        using False by (simp add: largest_first_unchanged)
    qed
    then show ?thesis
      unfolding f by simp
  next
    case False
    then obtain y where y: "y \<in> set xs" "geodesic_area x < geodesic_area y"
      by auto
    have same: "filter (?top (x # xs)) (x # xs) = filter (?top xs) xs"
    proof -
      have "\<not> ?top (x # xs) x"
        using y by (auto simp: not_le intro: bexI [of _ y])
      moreover have "?top (x # xs) r = ?top xs r" if "r \<in> set xs" for r
        using y that by (auto intro: order_trans less_imp_le)
      then have "filter (?top (x # xs)) xs = filter (?top xs) xs"
        by (intro filter_cong refl)
      ultimately show ?thesis
        by (simp del: set_simps ball_simps list.set)
    qed
    obtain m where m: "m \<in> set xs" "?top xs m"
      using exists_largest [of xs] y(1) by fastforce
    then obtain h t where ht: "filter (?top xs) xs = h # t"
      by (cases "filter (?top xs) xs") (auto simp: filter_empty_conv)
    then have "h \<in> set (filter (?top xs) xs)"
      by simp
    then have h: "h \<in> set xs" "?top xs h"
      by simp_all
    then have hx: "geodesic_area x < geodesic_area h"
      using y by (meson order_less_le_trans)
    have rhs: "(case filter (?top (x # xs)) (x # xs) of
                  [] \<Rightarrow> (a, oid)
                | r # _ \<Rightarrow> if a < geodesic_area r then (geodesic_area r, OBJECTID r) else (a, oid))
               = (if a < geodesic_area h then (geodesic_area h, OBJECTID h) else (a, oid))"
      by (simp only: same ht list.case)
    have ih: "largest_first (b, o') xs
              = (if b < geodesic_area h then (geodesic_area h, OBJECTID h) else (b, o'))" for b o'
      by (simp only: Cons.IH [of b o'] ht list.case)
    have lhs: "largest_first (a, oid) (x # xs)
               = (if a < geodesic_area h then (geodesic_area h, OBJECTID h) else (a, oid))"
    proof (cases "a < geodesic_area x")
      case True
      then show ?thesis
        using hx by (simp add: ih)
    next
      case False
      then show ?thesis
        by (simp add: ih)
    qed
    show ?thesis
      by (simp only: lhs rhs)
  qed
qed

lemma find_dupes_eq:
  "find_dupes xs V = {x \<in> set xs. x \<in> V \<or> 2 \<le> count_list xs x}"
proof (induction xs arbitrary: V)
  case Nil
  then show ?case by simp
next
  case (Cons x xs)
  have one: "(1 \<le> count_list xs x) = (x \<in> set xs)"
    by (metis One_nat_def Suc_le_eq count_list_0_iff gr0I not_gr_zero)
  show ?case
  proof (cases "x \<in> V")
    case True
    then show ?thesis
      by (auto simp: Cons.IH)
  next
    case False
    then show ?thesis
      using one by (auto simp: Cons.IH)
  qed
qed

lemma count_uids:
  "count_list (map (\<lambda>r. the (union_uid r)) (filter (\<lambda>r. \<not> is_gap r) rs)) x
   = (if x = 0 then 0 else length (fragments rs x))"
  by (induction rs) (auto simp: is_gap_def fragments_def)

lemma dupes_duplicated:
  "x \<in> find_dupes (map (\<lambda>r. the (union_uid r)) (filter (\<lambda>r. \<not> is_gap r) rs)) {} \<longleftrightarrow> duplicated rs x"
proof -
  let ?uids = "map (\<lambda>r. the (union_uid r)) (filter (\<lambda>r. \<not> is_gap r) rs)"
  have "2 \<le> count_list ?uids x \<Longrightarrow> x \<in> set ?uids"
    by (metis count_list_0_iff not_numeral_le_zero)
  then show ?thesis
    by (auto simp: find_dupes_eq duplicated_def count_uids split: if_splits)
qed

text \<open>
  Where the ids of the union's records, other than null and 0, are exactly the ids 1 to
  \<open>n\<close> of the \<open>n\<close> input records, some id is duplicated if and only if these records
  outnumber the input records, which is the test \<open>overlaps > 0\<close> of the code.
\<close>

lemma distinct_count_list: "distinct xs \<longleftrightarrow> (\<forall>x. count_list xs x \<le> 1)"
proof (induction xs)
  case Nil
  then show ?case by simp
next
  case (Cons a xs)
  show ?case
  proof
    assume d: "distinct (a # xs)"
    then have "count_list xs a = 0"
      by (simp add: count_list_0_iff)
    moreover have "\<forall>x. count_list xs x \<le> 1"
      using d Cons.IH by simp
    ultimately show "\<forall>x. count_list (a # xs) x \<le> 1"
      by simp
  next
    assume c: "\<forall>x. count_list (a # xs) x \<le> 1"
    then have "count_list (a # xs) a \<le> 1"
      by blast
    then have "a \<notin> set xs"
      by (simp add: count_list_0_iff)
    moreover have "count_list xs x \<le> 1" for x
      using c [rule_format, of x] by (simp split: if_splits)
    ultimately show "distinct (a # xs)"
      using Cons.IH by simp
  qed
qed

lemma duplicated_iff_outnumber:
  assumes "set (map (\<lambda>r. the (union_uid r)) (filter (\<lambda>r. \<not> is_gap r) rs)) = {1 .. int n}"
  shows "(\<exists>uid. duplicated rs uid) \<longleftrightarrow> n < length (filter (\<lambda>r. \<not> is_gap r) rs)"
proof -
  let ?U = "map (\<lambda>r. the (union_uid r)) (filter (\<lambda>r. \<not> is_gap r) rs)"
  have card: "card (set ?U) = n"
    using assms by simp
  have len: "length ?U = length (filter (\<lambda>r. \<not> is_gap r) rs)"
    by simp
  have dup: "(\<exists>uid. duplicated rs uid) \<longleftrightarrow> (\<exists>x. 2 \<le> count_list ?U x)"
    by (auto simp: duplicated_def count_uids split: if_splits)
  have "(\<exists>x. 2 \<le> count_list ?U x) \<longleftrightarrow> \<not> distinct ?U"
  proof -
    have "(2 \<le> k) = (\<not> k \<le> 1)" for k :: nat
      by linarith
    then show ?thesis
      by (simp add: distinct_count_list)
  qed
  also have "\<dots> \<longleftrightarrow> card (set ?U) \<noteq> length ?U"
    using card_distinct distinct_card by blast
  also have "\<dots> \<longleftrightarrow> n < length ?U"
    using card card_length [of ?U] by linarith
  finally show ?thesis
    using dup len by simp
qed

lemma overlap_size_scan_eq:
  assumes "\<forall>r\<in>set rs. OBJECTID r \<noteq> 0 \<and> union_uid r \<noteq> None \<and> AREA_SQKM r = Some (geodesic_area r)"
    and "\<forall>x\<in>dupes. sizes x \<noteq> None"
  shows "overlap_size_scan dupes rs sizes
         = Returns (\<lambda>x. if x \<in> dupes
                         then map_option (\<lambda>acc. largest_first acc (fragments rs x)) (sizes x)
                         else sizes x)"
  using assms
proof (induction rs arbitrary: sizes)
  case Nil
  have "fragments [] x = []" for x
    by (simp add: fragments_def)
  then have "(\<lambda>x. if x \<in> dupes
                  then map_option (\<lambda>acc. largest_first acc (fragments [] x)) (sizes x)
                  else sizes x) = sizes"
    by (auto simp: fun_eq_iff option.map_ident)
  then show ?case
    by simp
next
  case (Cons row rs)
  then obtain uid where u: "union_uid row = Some uid"
    by auto
  have a: "AREA_SQKM row = Some (geodesic_area row)" and o: "OBJECTID row \<noteq> 0"
    using Cons.prems(1) by simp_all
  have rest: "\<forall>r\<in>set rs. OBJECTID r \<noteq> 0 \<and> union_uid r \<noteq> None \<and> AREA_SQKM r = Some (geodesic_area r)"
    using Cons.prems(1) by simp
  have fr_same: "fragments (row # rs) x = fragments rs x" if "x \<noteq> uid" for x
    using that u by (simp add: fragments_def)
  have fr_uid: "fragments (row # rs) uid = row # fragments rs uid"
    using u by (simp add: fragments_def)
  show ?case
  proof (cases "uid \<in> dupes")
    case False
    then have "overlap_size_scan dupes (row # rs) sizes = overlap_size_scan dupes rs sizes"
      using u a by simp
    also have "\<dots> = Returns (\<lambda>x. if x \<in> dupes
                         then map_option (\<lambda>acc. largest_first acc (fragments rs x)) (sizes x)
                         else sizes x)"
      by (rule Cons.IH [OF rest Cons.prems(2)])
    also have "(\<lambda>x. if x \<in> dupes
                         then map_option (\<lambda>acc. largest_first acc (fragments rs x)) (sizes x)
                         else sizes x)
             = (\<lambda>x. if x \<in> dupes
                         then map_option (\<lambda>acc. largest_first acc (fragments (row # rs) x)) (sizes x)
                         else sizes x)"
    proof (rule ext)
      fix x
      show "(if x \<in> dupes
             then map_option (\<lambda>acc. largest_first acc (fragments rs x)) (sizes x)
             else sizes x)
          = (if x \<in> dupes
             then map_option (\<lambda>acc. largest_first acc (fragments (row # rs) x)) (sizes x)
             else sizes x)"
        using False by (cases "x = uid") (simp_all add: fr_same)
    qed
    finally show ?thesis .
  next
    case True
    then obtain largest oid where s: "sizes uid = Some (largest, oid)"
      using Cons.prems(2) by fastforce
    show ?thesis
    proof (cases "geodesic_area row > largest")
      case gt: True
      have "overlap_size_scan dupes (row # rs) sizes
            = overlap_size_scan dupes rs (sizes(uid \<mapsto> (geodesic_area row, OBJECTID row)))"
        using True u a o s gt by simp
      also have "\<dots> = Returns (\<lambda>x. if x \<in> dupes
                         then map_option (\<lambda>acc. largest_first acc (fragments rs x))
                                ((sizes(uid \<mapsto> (geodesic_area row, OBJECTID row))) x)
                         else (sizes(uid \<mapsto> (geodesic_area row, OBJECTID row))) x)"
        by (rule Cons.IH [OF rest]) (use Cons.prems(2) in simp)
      also have "(\<lambda>x. if x \<in> dupes
                         then map_option (\<lambda>acc. largest_first acc (fragments rs x))
                                ((sizes(uid \<mapsto> (geodesic_area row, OBJECTID row))) x)
                         else (sizes(uid \<mapsto> (geodesic_area row, OBJECTID row))) x)
              = (\<lambda>x. if x \<in> dupes
                         then map_option (\<lambda>acc. largest_first acc (fragments (row # rs) x)) (sizes x)
                         else sizes x)"
      proof (rule ext)
        fix x
        show "(if x \<in> dupes
               then map_option (\<lambda>acc. largest_first acc (fragments rs x))
                      ((sizes(uid \<mapsto> (geodesic_area row, OBJECTID row))) x)
               else (sizes(uid \<mapsto> (geodesic_area row, OBJECTID row))) x)
            = (if x \<in> dupes
               then map_option (\<lambda>acc. largest_first acc (fragments (row # rs) x)) (sizes x)
               else sizes x)"
          using True s gt by (cases "x = uid") (simp_all add: fr_same fr_uid)
      qed
      finally show ?thesis .
    next
      case le: False
      have "overlap_size_scan dupes (row # rs) sizes = overlap_size_scan dupes rs sizes"
        using True u a o s le by simp
      also have "\<dots> = Returns (\<lambda>x. if x \<in> dupes
                         then map_option (\<lambda>acc. largest_first acc (fragments rs x)) (sizes x)
                         else sizes x)"
        by (rule Cons.IH [OF rest Cons.prems(2)])
      also have "(\<lambda>x. if x \<in> dupes
                         then map_option (\<lambda>acc. largest_first acc (fragments rs x)) (sizes x)
                         else sizes x)
             = (\<lambda>x. if x \<in> dupes
                         then map_option (\<lambda>acc. largest_first acc (fragments (row # rs) x)) (sizes x)
                         else sizes x)"
      proof (rule ext)
        fix x
        show "(if x \<in> dupes
               then map_option (\<lambda>acc. largest_first acc (fragments rs x)) (sizes x)
               else sizes x)
            = (if x \<in> dupes
               then map_option (\<lambda>acc. largest_first acc (fragments (row # rs) x)) (sizes x)
               else sizes x)"
          using True s le by (cases "x = uid") (simp_all add: fr_same fr_uid)
      qed
      finally show ?thesis .
    qed
  qed
qed

lemma largest_first_with_area:
  "largest_first acc (with_area fr) = largest_first acc fr"
proof (induction fr arbitrary: acc)
  case Nil
  then show ?case by (simp add: with_area_def)
next
  case (Cons r fr)
  obtain a oid where acc: "acc = (a, oid)" by (cases acc)
  have w: "with_area (r # fr) = r\<lparr>AREA_SQKM := Some (geodesic_area r)\<rparr> # with_area fr"
    by (simp add: with_area_def)
  show ?case
    unfolding acc w using Cons.IH by simp
qed

lemma fragments_with_area: "fragments (with_area rs) x = with_area (fragments rs x)"
  by (simp add: fragments_def with_area_def filter_map comp_def)

lemma snd_largest_first_central:
  "snd (largest_first (0, 0) (fragments rs x)) = (case central rs x of None \<Rightarrow> 0 | Some oid \<Rightarrow> oid)"
  by (simp add: largest_first_eq central_def split: list.splits)

lemma central_in_fragments:
  assumes "central rs x = Some oid"
  shows "\<exists>h\<in>set rs. union_uid h = Some x \<and> OBJECTID h = oid"
proof -
  let ?fr = "fragments rs x"
  from assms obtain h t where ht: "filter (\<lambda>r. \<forall>r'\<in>set ?fr. geodesic_area r' \<le> geodesic_area r) ?fr = h # t"
    and oid: "OBJECTID h = oid"
    by (auto simp: central_def split: list.splits if_splits)
  then have "h \<in> set (filter (\<lambda>r. \<forall>r'\<in>set ?fr. geodesic_area r' \<le> geodesic_area r) ?fr)"
    by simp
  then have "h \<in> set ?fr"
    by simp
  then show ?thesis
    using oid by (auto simp: fragments_def)
qed

lemma mains_flag:
  assumes d: "distinct (map OBJECTID rs)" and nz: "\<forall>r\<in>set rs. OBJECTID r \<noteq> 0"
    and r: "r \<in> set rs" and u: "union_uid r = Some uid" and dup: "uid \<in> dupes"
  shows "OBJECTID r \<in> (\<lambda>x. snd (largest_first (0, 0) (fragments rs x))) ` dupes
         \<longleftrightarrow> central rs uid = Some (OBJECTID r)"
proof
  assume "central rs uid = Some (OBJECTID r)"
  then have "snd (largest_first (0, 0) (fragments rs uid)) = OBJECTID r"
    by (simp add: snd_largest_first_central)
  then show "OBJECTID r \<in> (\<lambda>x. snd (largest_first (0, 0) (fragments rs x))) ` dupes"
    using dup by force
next
  assume "OBJECTID r \<in> (\<lambda>x. snd (largest_first (0, 0) (fragments rs x))) ` dupes"
  then obtain x where x: "x \<in> dupes" "OBJECTID r = snd (largest_first (0, 0) (fragments rs x))"
    by auto
  have "OBJECTID r \<noteq> 0"
    using nz r by simp
  then have c: "central rs x = Some (OBJECTID r)"
    using x(2) by (simp add: snd_largest_first_central split: option.splits)
  then obtain h where h: "h \<in> set rs" "union_uid h = Some x" "OBJECTID h = OBJECTID r"
    using central_in_fragments by blast
  have "inj_on OBJECTID (set rs)"
    using d by (simp add: distinct_map)
  then have "h = r"
    using h(1,3) r by (auto dest: inj_onD)
  then have "x = uid"
    using h(2) u by simp
  then show "central rs uid = Some (OBJECTID r)"
    using c by simp
qed

lemma overlap_pass_flags:
  assumes nn: "\<forall>r\<in>set rs. union_uid r \<noteq> None"
    and d: "distinct (map OBJECTID rs)" and nz: "\<forall>r\<in>set rs. OBJECTID r \<noteq> 0"
  shows "snd (overlap_pass fc_union flds (map (\<lambda>r. the (union_uid r)) (filter (\<lambda>r. \<not> is_gap r) rs)) (with_area rs))
         = Returns (map (\<lambda>row. row\<lparr>overlaps := Some (overlap_flag rs row)\<rparr>) (with_area rs))"
proof -
  let ?uids = "map (\<lambda>r. the (union_uid r)) (filter (\<lambda>r. \<not> is_gap r) rs)"
  let ?dupes = "find_dupes ?uids {}"
  let ?rs1 = "with_area rs"
  let ?S = "\<lambda>x. if x \<in> ?dupes then Some (largest_first (0, 0) (fragments rs x)) else None"
  let ?mains = "(\<lambda>x. snd (largest_first (0, 0) (fragments rs x))) ` ?dupes"
  have rs1: "\<forall>r\<in>set ?rs1. OBJECTID r \<noteq> 0 \<and> union_uid r \<noteq> None \<and> AREA_SQKM r = Some (geodesic_area r)"
    using nn nz by (auto simp: with_area_def)
  have init: "\<forall>x\<in>?dupes. initial_overlap_sizes ?dupes x \<noteq> None"
    by (simp add: initial_overlap_sizes_def)
  have "overlap_size_scan ?dupes ?rs1 (initial_overlap_sizes ?dupes)
        = Returns (\<lambda>x. if x \<in> ?dupes
                        then map_option (\<lambda>acc. largest_first acc (fragments ?rs1 x)) (initial_overlap_sizes ?dupes x)
                        else initial_overlap_sizes ?dupes x)"
    by (rule overlap_size_scan_eq [OF rs1 init])
  also have "(\<lambda>x. if x \<in> ?dupes
                        then map_option (\<lambda>acc. largest_first acc (fragments ?rs1 x)) (initial_overlap_sizes ?dupes x)
                        else initial_overlap_sizes ?dupes x) = ?S"
    by (auto simp: fun_eq_iff initial_overlap_sizes_def fragments_with_area largest_first_with_area)
  finally have scan: "overlap_size_scan ?dupes ?rs1 (initial_overlap_sizes ?dupes) = Returns ?S" .
  have single: "(case p of (largest, oid) \<Rightarrow> {oid}) = {snd p}" for p :: "real \<times> int"
    by (cases p) simp
  have mains: "main_overlap_polys ?dupes ?S = ?mains"
    by (auto simp: main_overlap_polys_def single)
  have nn1: "\<forall>r\<in>set ?rs1. union_uid r \<noteq> None"
    using rs1 by simp
  have flag: "(if the (union_uid row) \<in> ?dupes then (if OBJECTID row \<in> ?mains then 2 else 1) else 0)
              = overlap_flag rs row" if "row \<in> set ?rs1" for row
  proof -
    from that obtain r where r: "r \<in> set rs" "row = r\<lparr>AREA_SQKM := Some (geodesic_area r)\<rparr>"
      by (auto simp: with_area_def)
    then obtain uid where u: "union_uid r = Some uid"
      using nn by auto
    have ru: "union_uid row = Some uid" and ro: "OBJECTID row = OBJECTID r"
      using r(2) u by simp_all
    show ?thesis
    proof (cases "uid \<in> ?dupes")
      case True
      then have "duplicated rs uid"
        by (simp add: dupes_duplicated)
      moreover have "OBJECTID r \<in> ?mains \<longleftrightarrow> central rs uid = Some (OBJECTID r)"
        by (rule mains_flag [OF d nz r(1) u True])
      ultimately show ?thesis
        using True by (simp add: overlap_flag_def ru ro)
    next
      case False
      then have "\<not> duplicated rs uid"
        by (simp add: dupes_duplicated)
      then show ?thesis
        using False by (simp add: overlap_flag_def ru)
    qed
  qed
  have "flag_overlaps ?dupes ?mains ?rs1
        = Returns (map (\<lambda>row. row\<lparr>overlaps := Some (if the (union_uid row) \<in> ?dupes
                                               then (if OBJECTID row \<in> ?mains then 2 else 1)
                                               else 0)\<rparr>) ?rs1)"
    by (rule flag_overlaps_returns [OF nn1])
  also have "map (\<lambda>row. row\<lparr>overlaps := Some (if the (union_uid row) \<in> ?dupes
                                               then (if OBJECTID row \<in> ?mains then 2 else 1)
                                               else 0)\<rparr>) ?rs1
           = map (\<lambda>row. row\<lparr>overlaps := Some (overlap_flag rs row)\<rparr>) ?rs1"
    by (rule map_cong [OF refl]) (simp only: flag)
  finally have fl: "flag_overlaps ?dupes ?mains ?rs1
        = Returns (map (\<lambda>row. row\<lparr>overlaps := Some (overlap_flag rs row)\<rparr>) ?rs1)" .
  show ?thesis
    by (simp only: overlap_pass_def Let_def scan outcome.case mains fl snd_conv)
qed

lemma overlap_flag_with_area:
  "overlap_flag rs (r\<lparr>AREA_SQKM := a\<rparr>) = overlap_flag rs r"
  by (simp add: overlap_flag_def split: option.splits)

text \<open>
  C2, as stated, fails where two fragments of an id have the same, largest, area: the
  second fragment of id 1 is as large as the first one and is flagged 1.
\<close>

theorem equal_areas_counterexample:
  "snd (overlap_gap_analysis world_tie ''fc'') =
     Returns
      ([\<lparr>OBJECTID = 1, union_uid = Some 1, geodesic_area = 5, AREA_SQKM = Some 5, overlaps = Some 2, gaps = None\<rparr>,
        \<lparr>OBJECTID = 2, union_uid = Some 1, geodesic_area = 5, AREA_SQKM = Some 5, overlaps = Some 1, gaps = None\<rparr>,
        \<lparr>OBJECTID = 3, union_uid = Some 2, geodesic_area = 3, AREA_SQKM = Some 3, overlaps = Some 0, gaps = None\<rparr>],
       0, 1)"
  by code_simp

text \<open>
  C2, amended. For every unioned feature class whose \<open>OBJECTID\<close>s are distinct and not
  0, in which no \<open>union_uid\<close> is null and the records with a \<open>union_uid\<close> other than 0
  outnumber the input records, \<open>overlap_gap_analysis\<close> returns and has set the
  \<open>overlaps\<close> field, for each id other than 0 that appears more than once, to 2 on the
  first fragment, in cursor order, of the largest area of that id when that area is
  positive, and to 1 on every other fragment of that id, and to 0 on every record whose
  id is not duplicated.
\<close>

theorem overlaps_flagged:
  assumes ov: "GetCount w fc < length (filter (\<lambda>r. \<not> is_gap r) (unioned w fc))"
    and nn: "\<forall>r\<in>set (unioned w fc). union_uid r \<noteq> None"
    and d: "distinct (map OBJECTID (unioned w fc))"
    and nz: "\<forall>r\<in>set (unioned w fc). OBJECTID r \<noteq> 0"
  shows "\<exists>rs' g. snd (overlap_gap_analysis w fc)
                    = Returns (rs', g, int (length (filter (\<lambda>r. \<not> is_gap r) (unioned w fc))) - int (GetCount w fc))
           \<and> map OBJECTID rs' = map OBJECTID (unioned w fc)
           \<and> map overlaps rs' = map (\<lambda>r. Some (overlap_flag (unioned w fc) r)) (unioned w fc)"
proof -
  let ?rs = "unioned w fc"
  let ?uids = "map (\<lambda>r. the (union_uid r)) (filter (\<lambda>r. \<not> is_gap r) ?rs)"
  let ?ov = "int (length ?uids) - int (GetCount w fc)"
  let ?g = "int (length (filter is_gap ?rs))"
  let ?rs2 = "map (\<lambda>row. row\<lparr>overlaps := Some (overlap_flag ?rs row)\<rparr>) (with_area ?rs)"
  have "length (filter (\<lambda>r. \<not> is_gap r) ?rs) \<le> length ?rs"
    by simp
  with ov have more: "GetCount w fc < length ?rs"
    by linarith
  have pos: "?ov > 0"
    using ov by simp
  then have c: "(if ?ov \<noteq> 0 \<or> ?g \<noteq> 0 then with_area ?rs else ?rs) = with_area ?rs"
    by simp
  have pass: "snd (overlap_pass (fc @ ''_union'') (map lower (ListFields w (fc @ ''_union''))) ?uids (with_area ?rs))
              = Returns ?rs2"
    by (rule overlap_pass_flags [OF nn d nz])
  have res: "snd (overlap_gap_analysis w fc) = Returns (if ?g > 0 then flag_gaps ?rs2 else ?rs2, ?g, ?ov)"
    using pos by (simp only: overlap_gap_analysis_more [OF more] Let_def c if_True pass outcome.case)
  have o1: "map OBJECTID ?rs2 = map OBJECTID ?rs" and o2: "map overlaps ?rs2 = map (\<lambda>r. Some (overlap_flag ?rs r)) ?rs"
    by (simp_all add: with_area_def comp_def overlap_flag_with_area)
  have g1: "map OBJECTID (flag_gaps rs) = map OBJECTID rs" and g2: "map overlaps (flag_gaps rs) = map overlaps rs" for rs
    by (simp_all add: flag_gaps_def comp_def)
  have "map OBJECTID (if ?g > 0 then flag_gaps ?rs2 else ?rs2) = map OBJECTID ?rs"
    using o1 by (simp add: g1)
  moreover have "map overlaps (if ?g > 0 then flag_gaps ?rs2 else ?rs2) = map (\<lambda>r. Some (overlap_flag ?rs r)) ?rs"
    using o2 by (simp add: g2)
  moreover have "snd (overlap_gap_analysis w fc)
      = Returns (if ?g > 0 then flag_gaps ?rs2 else ?rs2, ?g,
                 int (length (filter (\<lambda>r. \<not> is_gap r) ?rs)) - int (GetCount w fc))"
    using res by (simp only: length_map)
  ultimately show ?thesis
    by blast
qed


theorem overlaps_flagged_witness:
  "GetCount example_world ''fc'' = 2
   \<and> map union_uid (unioned example_world ''fc'') = [Some 1, Some 1, Some 2, Some 0]
   \<and> map OBJECTID (unioned example_world ''fc'') = [1, 2, 3, 4]
   \<and> (\<exists>rs' g. snd (overlap_gap_analysis example_world ''fc'') = Returns (rs', g, 1)
         \<and> map overlaps rs' = [Some 2, Some 1, Some 0, Some 0])"
proof -
  have h1: "GetCount example_world ''fc'' < length (filter (\<lambda>r. \<not> is_gap r) (unioned example_world ''fc''))"
    by code_simp
  have h2: "\<forall>r\<in>set (unioned example_world ''fc''). union_uid r \<noteq> None"
    by code_simp
  have h3: "distinct (map OBJECTID (unioned example_world ''fc''))"
    by code_simp
  have h4: "\<forall>r\<in>set (unioned example_world ''fc''). OBJECTID r \<noteq> 0"
    by code_simp
  have n: "int (length (filter (\<lambda>r. \<not> is_gap r) (unioned example_world ''fc'')))
           - int (GetCount example_world ''fc'') = 1"
    by code_simp
  have m: "map (\<lambda>r. Some (overlap_flag (unioned example_world ''fc'') r)) (unioned example_world ''fc'')
           = [Some 2, Some 1, Some 0, Some 0]"
    by code_simp
  note t = overlaps_flagged [OF h1 h2 h3 h4, unfolded n m]
  from t obtain rs' g where "snd (overlap_gap_analysis example_world ''fc'') = Returns (rs', g, 1)"
    "map overlaps rs' = [Some 2, Some 1, Some 0, Some 0]"
    by auto
  then have "\<exists>rs' g. snd (overlap_gap_analysis example_world ''fc'') = Returns (rs', g, 1)
         \<and> map overlaps rs' = [Some 2, Some 1, Some 0, Some 0]"
    by auto
  moreover have "GetCount example_world ''fc'' = 2"
    "map union_uid (unioned example_world ''fc'') = [Some 1, Some 1, Some 2, Some 0]"
    "map OBJECTID (unioned example_world ''fc'') = [1, 2, 3, 4]"
    by code_simp+
  ultimately show ?thesis
    by (intro conjI)
qed

subsection \<open>The script: geometry type and reserved-words file\<close>

lemma makes_copy_append [simp]: "makes_copy (t @ u) = (makes_copy t \<or> makes_copy u)"
  by (auto simp: makes_copy_def list_ex_iff)

lemma reports_error_append [simp]: "reports_error (t @ u) = (reports_error t \<or> reports_error u)"
  by (auto simp: reports_error_def list_ex_iff)

lemma makes_copy_Nil [simp]: "\<not> makes_copy []"
  by (simp add: makes_copy_def)

lemma makes_copy_Cons [simp]: "makes_copy (e # t) = (is_copy e \<or> makes_copy t)"
  by (simp add: makes_copy_def)

lemma reports_error_Nil [simp]: "\<not> reports_error []"
  by (simp add: reports_error_def)

lemma reports_error_Cons [simp]: "reports_error (e # t) = (is_error e \<or> reports_error t)"
  by (simp add: reports_error_def)

lemma no_copy_reserved_loop:
  "\<not> makes_copy t0 \<Longrightarrow> \<not> makes_copy (fst (fold (\<lambda>fld (t, d).
                     if fld \<in> R
                     then (t @ [AddMessage [Txt (''Field '' @ fld @ '' is a reserved name, adding an underscore.'')]],
                           AList.update fld (fld @ ''_'') d)
                     else (t, d)) flds (t0, d0)))"
  by (induction flds arbitrary: t0 d0) auto

lemma no_copy_read_reserved_words: "\<not> makes_copy (fst (read_reserved_words w))"
  by (simp add: read_reserved_words_def Let_def split: file_read.splits)

lemma no_copy_check_fields: "\<not> makes_copy (fst (check_fields w fc))"
proof -
  obtain t0 R where r: "read_reserved_words w = (t0, R)"
    by (cases "read_reserved_words w")
  then have t0: "\<not> makes_copy t0"
    using no_copy_read_reserved_words [of w] by simp
  obtain t2 d where f: "fold (\<lambda>fld (t, d).
                     if fld \<in> R
                     then (t @ [AddMessage [Txt (''Field '' @ fld @ '' is a reserved name, adding an underscore.'')]],
                           AList.update fld (fld @ ''_'') d)
                     else (t, d)) (map upper (ListFields w fc)) ([], []) = (t2, d)"
    by (cases "fold (\<lambda>fld (t, d).
                     if fld \<in> R
                     then (t @ [AddMessage [Txt (''Field '' @ fld @ '' is a reserved name, adding an underscore.'')]],
                           AList.update fld (fld @ ''_'') d)
                     else (t, d)) (map upper (ListFields w fc)) ([], [])")
  have t2: "\<not> makes_copy t2"
    using no_copy_reserved_loop [of "[]" R "map upper (ListFields w fc)" "[]"] f by simp
  show ?thesis
    using t0 t2 by (simp add: check_fields_def r f Let_def)
qed

lemma no_copy_check_input_params: "\<not> makes_copy (fst (check_input_params w fc ows i))"
  by (simp add: check_input_params_def Let_def)

lemma no_copy_check_geometry: "\<not> makes_copy (fst (check_geometry w fc))"
  by (simp add: check_geometry_def Let_def)

lemma no_copy_check_srs: "\<not> makes_copy (fst (check_srs w fc))"
  by (simp add: check_srs_def Let_def)

lemma check_geometry_not_polygon:
  "shapeType (Describe w fc) \<notin> {''Polygon'', ''MultiPatch''} \<Longrightarrow>
   fst (snd (snd (check_geometry w fc))) \<noteq> Some True \<or> snd (snd (snd (check_geometry w fc))) \<noteq> Some True"
  by (simp add: check_geometry_def Let_def)

text \<open>
  C5, as stated, fails for multipatch geometry: the run makes the working copy and ends
  with exit code 0.
\<close>

theorem multipatch_copied_counterexample:
  "shapeType (Describe world_multipatch (input_features example_args)) \<noteq> ''Polygon''
   \<and> makes_copy (fst (check_input_boundaries world_multipatch example_args))
   \<and> snd (check_input_boundaries world_multipatch example_args) = Returns ()"
  by code_simp

text \<open>
  C5, amended. For every input feature class whose geometry type is neither
  \<open>Polygon\<close> nor \<open>MultiPatch\<close>, the boundary-check script reports an error and halts
  with exit code 1 before making a working copy.
\<close>

theorem not_polygon_exits:
  assumes "shapeType (Describe w (input_features a)) \<notin> {''Polygon'', ''MultiPatch''}"
  shows "snd (check_input_boundaries w a) = SysExit 1
         \<and> reports_error (fst (check_input_boundaries w a))
         \<and> \<not> makes_copy (fst (check_input_boundaries w a))"
proof -
  obtain tp rp where p: "check_input_params w (input_features a) (out_folder a)
      (if check_iso a then check_iso_code (iso_code a) else lower (iso_code a)) = (tp, rp)"
    by (cases "check_input_params w (input_features a) (out_folder a)
      (if check_iso a then check_iso_code (iso_code a) else lower (iso_code a))")
  have tp: "\<not> makes_copy tp"
    using no_copy_check_input_params [of w "input_features a" "out_folder a"
       "(if check_iso a then check_iso_code (iso_code a) else lower (iso_code a))"] p by simp
  obtain tf names where f: "check_fields w (input_features a) = (tf, names)"
    by (cases "check_fields w (input_features a)")
  have tf: "\<not> makes_copy tf"
    using no_copy_check_fields [of w "input_features a"] f by simp
  obtain tg repair topo has_proj where g: "check_geometry w (input_features a) = (tg, repair, topo, has_proj)"
    by (cases "check_geometry w (input_features a)") auto
  have tg: "\<not> makes_copy tg"
    using no_copy_check_geometry [of w "input_features a"] g by simp
  have tt: "topo \<noteq> Some True \<or> has_proj \<noteq> Some True"
    using check_geometry_not_polygon [OF assms] g by simp
  obtain ts isGeo wgs84 where s: "check_srs w (input_features a) = (ts, isGeo, wgs84)"
    by (cases "check_srs w (input_features a)") auto
  have ts: "\<not> makes_copy ts"
    using no_copy_check_srs [of w "input_features a"] s by simp
  show ?thesis
  proof (cases "Exists w (input_features a)")
    case False
    then have "rp = SysExit 1 \<and> reports_error tp"
      using p by (auto simp: check_input_params_def)
    then show ?thesis
      using tp by (simp add: check_input_boundaries_def Let_def and_then_def say_def p)
  next
    case True
    then obtain ws where "rp = Returns ws"
      using p by (auto simp: check_input_params_def Let_def)
    then show ?thesis
      using tp tf tg ts tt
      by (auto simp: check_input_boundaries_def Let_def and_then_def say_def returning_def p f g s)
  qed
qed


theorem not_polygon_exits_witness:
  "shapeType (Describe world_points (input_features example_args)) \<notin> {''Polygon'', ''MultiPatch''}
   \<and> snd (check_input_boundaries world_points example_args) = SysExit 1
   \<and> reports_error (fst (check_input_boundaries world_points example_args))
   \<and> \<not> makes_copy (fst (check_input_boundaries world_points example_args))"
proof -
  have h: "shapeType (Describe world_points (input_features example_args)) \<notin> {''Polygon'', ''MultiPatch''}"
    by (simp add: world_points_def example_world_def wgs84_polygons_def example_args_def)
  from not_polygon_exits [OF h] h show ?thesis
    by simp
qed

lemma read_reserved_words_unreadable:
  "read_file w RESERVED_WORDS_FILE = IOErrorAfter ls \<Longrightarrow>
   read_reserved_words w =
     ([AddMessage [Txt ''Reading in reserved keywords.''],
       AddWarning [Txt ''Unable to read list of reserved keywords, field names cannot be checked!''],
       AddMessage [Txt ''Tried to read words from file: ''],
       AddMessage [Txt RESERVED_WORDS_FILE]],
      strip ` set ls)"
  by (simp add: read_reserved_words_def Let_def fold_insert_strip)

lemma check_fields_names_depend:
  assumes "snd (read_reserved_words w') = snd (read_reserved_words w)"
    and "ListFields w' = ListFields w"
  shows "snd (check_fields w' fc) = snd (check_fields w fc)"
proof -
  obtain t0 R where r: "read_reserved_words w = (t0, R)"
    by (cases "read_reserved_words w")
  obtain t0' where r': "read_reserved_words w' = (t0', R)"
    using assms(1) r by (cases "read_reserved_words w'") simp
  show ?thesis
    by (simp add: check_fields_def r r' assms(2) Let_def split: prod.splits)
qed


lemma check_input_params_read_file: "check_input_params (w\<lparr>read_file := r\<rparr>) = check_input_params w"
    by (simp add: check_input_params_def fun_eq_iff Let_def)
lemma check_geometry_read_file: "check_geometry (w\<lparr>read_file := r\<rparr>) = check_geometry w"
    by (simp add: check_geometry_def fun_eq_iff Let_def)
lemma check_srs_read_file: "check_srs (w\<lparr>read_file := r\<rparr>) = check_srs w"
    by (simp add: check_srs_def fun_eq_iff Let_def)
lemma overlap_gap_analysis_read_file: "overlap_gap_analysis (w\<lparr>read_file := r\<rparr>) = overlap_gap_analysis w"
    by (simp add: overlap_gap_analysis_def fun_eq_iff cong del: let_weak_cong if_weak_cong)

lemma snd_say: "snd (say t) = Returns ()"
  by (simp add: say_def)

lemma snd_returning: "snd (returning m) = Returns (snd m)"
  by (cases m) (simp add: returning_def)

text \<open>
  C4, as stated, fails: with the reserved-words file unreadable, the run reports the
  failure as a warning, goes on, and ends with exit code 0.
\<close>

theorem unreadable_continues_counterexample:
  "read_file world_unreadable RESERVED_WORDS_FILE = IOErrorAfter []
   \<and> AddWarning [Txt ''Unable to read list of reserved keywords, field names cannot be checked!'']
       \<in> set (fst (check_input_boundaries world_unreadable example_args))
   \<and> makes_copy (fst (check_input_boundaries world_unreadable example_args))
   \<and> snd (check_input_boundaries world_unreadable example_args) = Returns ()"
  by code_simp

text \<open>
  C4, amended. For every run of the boundary-check script in which the reserved-words
  file cannot be read, the failure is reported as a warning and execution continues with
  the words read before the failure (none when the file cannot be opened): the script
  ends as it does when the file is read without error and holds exactly those lines.
\<close>

theorem unreadable_reserved_words_continues:
  assumes "read_file w RESERVED_WORDS_FILE = IOErrorAfter ls"
  shows "read_reserved_words w =
           ([AddMessage [Txt ''Reading in reserved keywords.''],
             AddWarning [Txt ''Unable to read list of reserved keywords, field names cannot be checked!''],
             AddMessage [Txt ''Tried to read words from file: ''],
             AddMessage [Txt RESERVED_WORDS_FILE]],
            strip ` set ls)
         \<and> snd (check_input_boundaries w a)
             = snd (check_input_boundaries (w\<lparr>read_file := (read_file w)(RESERVED_WORDS_FILE := Lines ls)\<rparr>) a)"
proof -
  let ?w = "w\<lparr>read_file := (read_file w)(RESERVED_WORDS_FILE := Lines ls)\<rparr>"
  have "snd (read_reserved_words ?w) = snd (read_reserved_words w)"
    using assms by (simp add: reserved_words_eq lines_read_def)
  then have names: "snd (check_fields ?w (input_features a)) = snd (check_fields w (input_features a))"
    by (rule check_fields_names_depend) simp
  have "snd (check_input_boundaries ?w a) = snd (check_input_boundaries w a)"
    unfolding check_input_boundaries_def Let_def
    by (simp only: snd_and_then snd_say snd_returning check_input_params_read_file
        check_geometry_read_file check_srs_read_file overlap_gap_analysis_read_file names)
  then show ?thesis
    using read_reserved_words_unreadable [OF assms] by simp
qed

theorem unreadable_reserved_words_continues_witness:
  "read_file world_unreadable RESERVED_WORDS_FILE = IOErrorAfter []
   \<and> snd (read_reserved_words world_unreadable) = {}
   \<and> snd (check_input_boundaries world_unreadable example_args)
       = snd (check_input_boundaries
            (world_unreadable\<lparr>read_file := (read_file world_unreadable)(RESERVED_WORDS_FILE := Lines [])\<rparr>)
            example_args)"
proof -
  have h: "read_file world_unreadable RESERVED_WORDS_FILE = IOErrorAfter []"
    by (simp add: world_unreadable_def example_world_def)
  from unreadable_reserved_words_continues [OF h, of example_args] h show ?thesis
    by simp
qed

subsection \<open>The eliminate script\<close>

lemma where_query_render: "where_query g ov a = map_option render (where_clause g ov a)"
  by (simp add: where_query_def where_clause_def)

lemma where_clause_selects:
  "where_clause g ov a = Some c \<Longrightarrow> selects v c row = flagged_below g ov v row"
  by (auto simp: where_clause_def flagged_below_def split: if_splits option.splits)

lemma where_clause_defined: "g \<or> ov \<Longrightarrow> \<exists>c. where_clause g ov a = Some c"
  by (cases g; cases ov) (simp_all add: where_clause_def)

text \<open>
  C6. For every input feature class and threshold text \<open>max_area\<close> given to the
  eliminate script: when neither a \<open>gaps\<close> nor an \<open>overlaps\<close> field exists it halts with
  exit code 1 and invokes no toolkit operation; otherwise it returns, and the toolkit
  operations it invokes are the feature layer, the selection and Eliminate on that layer,
  the selection being made with the text of a clause (gaps only, overlaps only, or both,
  according to the flag fields that exist) that holds of exactly the records whose flag
  equals 1 and whose \<open>AREA_SQKM\<close> is strictly below the number \<open>max_area\<close> denotes.
\<close>

theorem eliminate_selects_flagged_below:
  "(let fc = elim_input_features a;
        g = (''gaps'' \<in> set (ListFields w fc));
        ov = (''overlaps'' \<in> set (ListFields w fc));
        run = eliminate_gaps_overlaps w a
    in if \<not> g \<and> \<not> ov
       then snd run = SysExit 1 \<and> calls (fst run) = []
       else snd run = Returns ()
            \<and> (\<exists>c. where_clause g ov (max_area a) = Some c
                   \<and> calls (fst run) =
                        [MakeFeatureLayer fc ''lyr'',
                         SelectLayerByAttribute ''lyr'' ''NEW_SELECTION'' (render c),
                         Eliminate ''lyr'' (fc @ ''_elim'')]
                   \<and> (\<forall>v row. selects v c row = flagged_below g ov v row)))"
proof -
  let ?fc = "elim_input_features a"
  let ?g = "''gaps'' \<in> set (ListFields w ?fc)"
  let ?ov = "''overlaps'' \<in> set (ListFields w ?fc)"
  show ?thesis
  proof (cases "\<not> ?g \<and> \<not> ?ov")
    case True
    then show ?thesis
      by (simp add: eliminate_gaps_overlaps_def check_fc_def and_then_def say_def calls_def Let_def)
  next
    case False
    then have "?g \<or> ?ov"
      by blast
    from where_clause_defined [OF this] obtain c where c: "where_clause ?g ?ov (max_area a) = Some c"
      by blast
    then have q: "where_query ?g ?ov (max_area a) = Some (render c)"
      by (simp add: where_query_render)
    have sel: "\<forall>v row. selects v c row = flagged_below ?g ?ov v row"
      using where_clause_selects [OF c] by simp
    have "check_fc w ?fc = (if ''AREA_SQKM'' \<notin> set (ListFields w ?fc)
                then [AddError [Txt (''Field AREA_SQKM is required and cannot be found in '' @ ?fc)]]
                else [], Returns (?g, ?ov))"
      using False by (auto simp: check_fc_def Let_def)
    then have "snd (eliminate_gaps_overlaps w a) = Returns ()
        \<and> calls (fst (eliminate_gaps_overlaps w a)) =
                        [MakeFeatureLayer ?fc ''lyr'',
                         SelectLayerByAttribute ''lyr'' ''NEW_SELECTION'' (render c),
                         Eliminate ''lyr'' (?fc @ ''_elim'')]"
      using q by (simp add: eliminate_gaps_overlaps_def and_then_def say_def calls_def run_eliminate_def)
    then show ?thesis
      using False c sel by (simp add: Let_def)
  qed
qed


theorem eliminate_selects_flagged_below_witness:
  "snd (eliminate_gaps_overlaps world_flagged flagged_args) = Returns ()
   \<and> calls (fst (eliminate_gaps_overlaps world_flagged flagged_args)) =
        [MakeFeatureLayer ''usa_ingest_union'' ''lyr'',
         SelectLayerByAttribute ''lyr'' ''NEW_SELECTION'' ''(gaps = 1 OR overlaps = 1) AND AREA_SQKM < 0.5'',
         Eliminate ''lyr'' ''usa_ingest_union_elim'']
   \<and> snd (eliminate_gaps_overlaps example_world flagged_args) = SysExit 1"
  using eliminate_selects_flagged_below [where w = world_flagged and a = flagged_args]
    eliminate_selects_flagged_below [where w = example_world and a = flagged_args]
  by (auto simp: Let_def world_flagged_def example_world_def flagged_args_def where_clause_def)

subsection \<open>The review project\<close>

text \<open>
  C8. The input is the unioned feature class \<open>usa_ingest_union\<close> of a geodatabase that
  holds \<open>usa_ingest\<close>. The layer \<open>original_loaded\<close> is left bound to
  \<open>usa_ingest_union\<close>, the input feature class, and not to \<open>usa_ingest\<close>.
\<close>

theorem original_layer_rebound_to_input:
  "Exists world_review (review_gdb @ ''/'' @ take 3 ''usa_ingest_union'' @ ''_ingest'')
   \<and> snd (setup_project world_review review_fc) =
       Returns
        [\<lparr>layer_name = ''overlaps'',
          connectionProperties = \<lparr>database = review_gdb, dataset = ''usa_ingest_union'',
                                    workspace_factory = ''File Geodatabase''\<rparr>\<rparr>,
         \<lparr>layer_name = ''gaps'',
          connectionProperties = \<lparr>database = review_gdb, dataset = ''usa_ingest_union'',
                                    workspace_factory = ''File Geodatabase''\<rparr>\<rparr>,
         \<lparr>layer_name = ''admin_union'',
          connectionProperties = \<lparr>database = review_gdb, dataset = ''usa_ingest_union'',
                                    workspace_factory = ''File Geodatabase''\<rparr>\<rparr>,
         \<lparr>layer_name = ''original_loaded'',
          connectionProperties = \<lparr>database = review_gdb, dataset = ''usa_ingest_union'',
                                    workspace_factory = ''File Geodatabase''\<rparr>\<rparr>]"
  by code_simp

theorem original_layer_rebound_to_input_witness:
  "map layer_name template_layers = [''overlaps'', ''gaps'', ''admin_union'', ''original_loaded'']
   \<and> map (\<lambda>l. dataset (connectionProperties l))
         (case snd (setup_project world_review review_fc) of Returns ls \<Rightarrow> ls | _ \<Rightarrow> [])
       = [''usa_ingest_union'', ''usa_ingest_union'', ''usa_ingest_union'', ''usa_ingest_union'']"
proof -
  have "map layer_name template_layers = [''overlaps'', ''gaps'', ''admin_union'', ''original_loaded'']"
    by code_simp
  with original_layer_rebound_to_input show ?thesis
    by simp
qed

end
